theory Spec2Isabelle
  imports Main
begin

section \<open>JavaScript values and exceptions\<close>

text \<open>
  The module \<^verbatim>\<open>lib/workers/global/CustomDashboardWriter.ts\<close> reads parsed JSON that an
  HTTP client hands back. The TypeScript annotations on those reads are erased at run
  time, so the model keeps the values untyped: a response body is any JavaScript value
  that \<^verbatim>\<open>JSON.parse\<close> can produce, or \<^verbatim>\<open>undefined\<close>. The module never computes with a
  number: it writes one into a URL and hands it on. A number is therefore given by the
  text that JavaScript prints for it (\<^verbatim>\<open>Number.prototype.toString\<close>): \<^verbatim>\<open>7\<close> is
  \<open>JNum ''7''\<close>, \<^verbatim>\<open>1e21\<close> is \<open>JNum ''1e+21''\<close>. Two numbers of a JSON text are strictly
  equal exactly when they print alike.
\<close>

datatype jsval =
    JUndefined
  | JNull
  | JBool bool
  | JNum string
  | JStr string
  | JArr "jsval list"
  | JObj "(string \<times> jsval) list"

text \<open>
  A thrown value. \<open>Error m\<close> and \<open>TypeError m\<close> are error objects with the message
  \<open>m\<close>; the language throws a \<open>TypeError\<close> on a property read of \<^verbatim>\<open>null\<close> or
  \<^verbatim>\<open>undefined\<close>, on a call of something that is no function, and on an object that
  cannot be converted to a string. \<open>Thrown v\<close> is any other value that a \<^verbatim>\<open>throw\<close> or a
  rejected promise carries: a string, \<^verbatim>\<open>undefined\<close>, a plain object.
\<close>

datatype js_error = Error string | TypeError string | Thrown jsval

text \<open>\<^verbatim>\<open>s.startsWith(p)\<close>\<close>

definition startsWith :: "string \<Rightarrow> string \<Rightarrow> bool" where
  "startsWith s p = (take (length p) s = p)"

text \<open>\<^verbatim>\<open>is.array(v)\<close>, that is \<^verbatim>\<open>Array.isArray(v)\<close>\<close>

fun is_array :: "jsval \<Rightarrow> bool" where
  "is_array (JArr xs) = True"
| "is_array v = False"

text \<open>
  The property read \<^verbatim>\<open>v.k\<close> for the keys the module reads (\<^verbatim>\<open>iid\<close>, \<^verbatim>\<open>title\<close>,
  \<^verbatim>\<open>description\<close>, \<^verbatim>\<open>message\<close>): it throws on \<^verbatim>\<open>null\<close> and \<^verbatim>\<open>undefined\<close>, looks the key up in an
  object, and gives \<^verbatim>\<open>undefined\<close> on every other value (none of these keys is a
  built-in property of a boolean, number, string or array). An object is the list of
  its members in the order of the JSON text; of a key written twice the last value
  counts, as after \<^verbatim>\<open>JSON.parse\<close>.
\<close>

definition quoted :: "string \<Rightarrow> string" where
  "quoted k = [CHR 0x27] @ k @ [CHR 0x27]"

fun getProp :: "jsval \<Rightarrow> string \<Rightarrow> js_error + jsval" where
  "getProp JUndefined k =
     Inl (TypeError (''Cannot read properties of undefined (reading '' @ quoted k @ '')''))"
| "getProp JNull k =
     Inl (TypeError (''Cannot read properties of null (reading '' @ quoted k @ '')''))"
| "getProp (JObj kvs) k = Inr (case map_of (rev kvs) k of None \<Rightarrow> JUndefined | Some v \<Rightarrow> v)"
| "getProp v k = Inr JUndefined"

text \<open>\<^verbatim>\<open>err.message\<close> for a caught value.\<close>

fun errMessage :: "js_error \<Rightarrow> js_error + jsval" where
  "errMessage (Error m) = Inr (JStr m)"
| "errMessage (TypeError m) = Inr (JStr m)"
| "errMessage (Thrown v) = getProp v ''message''"

text \<open>
  The receiver of the call \<^verbatim>\<open>m.startsWith(...)\<close>: a string has the method; on
  \<^verbatim>\<open>undefined\<close> and \<^verbatim>\<open>null\<close> the read of \<^verbatim>\<open>startsWith\<close> throws; on every other value of
  the model the read gives no function and the call throws.
\<close>

fun startsWithReceiver :: "jsval \<Rightarrow> js_error + string" where
  "startsWithReceiver (JStr s) = Inr s"
| "startsWithReceiver JUndefined =
     Inl (TypeError (''Cannot read properties of undefined (reading '' @ quoted ''startsWith'' @ '')''))"
| "startsWithReceiver JNull =
     Inl (TypeError (''Cannot read properties of null (reading '' @ quoted ''startsWith'' @ '')''))"
| "startsWithReceiver v = Inl (TypeError ''err.message.startsWith is not a function'')"

text \<open>
  What the \<^verbatim>\<open>catch\<close> block of \<^verbatim>\<open>ensureIssue\<close> finds when it evaluates
  \<^verbatim>\<open>err.message.startsWith\<close>: the message string, or the \<open>TypeError\<close> of that evaluation.
\<close>

definition caughtMessage :: "js_error \<Rightarrow> js_error + string" where
  "caughtMessage err =
     (case errMessage err of
        Inl e \<Rightarrow> Inl e
      | Inr m \<Rightarrow> startsWithReceiver m)"

text \<open>
  Strict equality \<^verbatim>\<open>a === b\<close>. Primitives compare by value. Arrays and objects compare
  by reference; the two sides of every comparison in the module come from different
  places (a parsed response and a caller's argument), so they are never the same
  reference.
\<close>

fun strictEq :: "jsval \<Rightarrow> jsval \<Rightarrow> bool" where
  "strictEq JUndefined JUndefined = True"
| "strictEq JNull JNull = True"
| "strictEq (JBool a) (JBool b) = (a = b)"
| "strictEq (JNum a) (JNum b) = (a = b)"
| "strictEq (JStr a) (JStr b) = (a = b)"
| "strictEq a b = False"

text \<open>
  Conversion to a string inside a template literal, \<^verbatim>\<open>`${v}`\<close>. An array is joined
  with commas, \<^verbatim>\<open>null\<close> and \<^verbatim>\<open>undefined\<close> elements giving the empty string. An object
  parsed from JSON prints as \<^verbatim>\<open>[object Object]\<close>, unless it has a member named
  \<^verbatim>\<open>toString\<close>: that member hides the inherited method and is no function, the inherited
  \<^verbatim>\<open>valueOf\<close> (or a member of that name) gives no primitive either, and the conversion
  throws.
\<close>

fun joinComma :: "string list \<Rightarrow> string" where
  "joinComma [] = []"
| "joinComma [s] = s"
| "joinComma (s # t # ss) = s @ '','' @ joinComma (t # ss)"

text \<open>Results computed from left to right: the first throw is the throw of the whole.\<close>

fun sequenceThrowing :: "(js_error + 'a) list \<Rightarrow> js_error + 'a list" where
  "sequenceThrowing [] = Inr []"
| "sequenceThrowing (Inl e # rs) = Inl e"
| "sequenceThrowing (Inr x # rs) =
     (case sequenceThrowing rs of Inl e \<Rightarrow> Inl e | Inr xs \<Rightarrow> Inr (x # xs))"

fun toString :: "jsval \<Rightarrow> js_error + string" where
  "toString JUndefined = Inr ''undefined''"
| "toString JNull = Inr ''null''"
| "toString (JBool b) = Inr (if b then ''true'' else ''false'')"
| "toString (JNum n) = Inr n"
| "toString (JStr s) = Inr s"
| "toString (JArr xs) =
     (case sequenceThrowing
             (map (\<lambda>x. if x = JUndefined \<or> x = JNull then Inr [] else toString x) xs) of
        Inl e \<Rightarrow> Inl e
      | Inr ss \<Rightarrow> Inr (joinComma ss))"
| "toString (JObj kvs) =
     (if ''toString'' \<in> set (map fst kvs) then
        Inl (TypeError ''Cannot convert object to primitive value'')
      else Inr ''[object Object]'')"

section \<open>The collaborators: HTTP client and logger\<close>

datatype http_method = GET | PUT | POST

text \<open>
  One call of the HTTP client: the method, the path, and the options object the module
  passes (\<^verbatim>\<open>baseUrl\<close>, \<^verbatim>\<open>useCache\<close>, \<^verbatim>\<open>body\<close>; \<open>None\<close> is an absent option).
\<close>

record request =
  verb :: http_method
  url :: string
  baseUrl :: "string option"
  useCache :: "bool option"
  reqBody :: "jsval option"

text \<open>
  The client either throws or returns a response, of which the module reads only
  \<^verbatim>\<open>res.body\<close>. The client is an arbitrary function of the exchanges so far and of the
  request, so it can answer the same request differently at different times.
\<close>

type_synonym response = "js_error + jsval"

type_synonym exchange = "request \<times> response"

type_synonym Http = "exchange list \<Rightarrow> request \<Rightarrow> response"

datatype level = Debug | Info | Warn

text \<open>
  \<^verbatim>\<open>type SelfHostIssue = { iid: number; title: string }\<close>, with the fields holding
  whatever the response held.
\<close>

datatype SelfHostIssue = SelfHostIssue (iid: jsval) (title: jsval)

text \<open>The first argument of a log call, when it is a context object.\<close>

datatype log_context =
    NoContext
  | ResponseBody jsval
  | Err js_error
  | ErrNumber js_error jsval
  | IssueContext SelfHostIssue

datatype log_entry = LogEntry level log_context string

section \<open>Module state\<close>

text \<open>
  \<^verbatim>\<open>RenovateConfig\<close> is declared elsewhere; the module reads two of its fields. The
  field \<^verbatim>\<open>repository\<close> of the configuration is named \<open>configRepository\<close> here, to keep
  it apart from the module variable \<^verbatim>\<open>repository\<close>.
\<close>

record RenovateConfig =
  dependencyDashboardUrl :: "string option"
  configRepository :: "string option"

text \<open>
  The module variables \<^verbatim>\<open>repository\<close>, \<^verbatim>\<open>http\<close>, \<^verbatim>\<open>issueListCache\<close> and
  \<^verbatim>\<open>renovateConfig\<close>, together with what the module does to the outside: the exchanges
  with the HTTP client, in order, and the log.
\<close>

record world =
  repository :: string
  http :: Http
  issueListCache :: "SelfHostIssue list"
  renovateConfig :: RenovateConfig
  network :: "exchange list"
  logs :: "log_entry list"

definition logger :: "level \<Rightarrow> log_context \<Rightarrow> string \<Rightarrow> world \<Rightarrow> world" where
  "logger lv ctx msg w = w\<lparr>logs := logs w @ [LogEntry lv ctx msg]\<rparr>"

definition call :: "request \<Rightarrow> world \<Rightarrow> response \<times> world" where
  "call rq w =
     (let rs = http w (network w) rq
      in (rs, w\<lparr>network := network w @ [(rq, rs)]\<rparr>))"

text \<open>\<^verbatim>\<open>http.getJson(url, {useCache, baseUrl})\<close>\<close>

definition getJson :: "string \<Rightarrow> bool option \<Rightarrow> string option \<Rightarrow> world \<Rightarrow> response \<times> world" where
  "getJson u uc base w =
     call \<lparr>verb = GET, url = u, baseUrl = base, useCache = uc, reqBody = None\<rparr> w"

text \<open>\<^verbatim>\<open>http.putJson(url, {body, baseUrl})\<close>\<close>

definition putJson :: "string \<Rightarrow> jsval \<Rightarrow> string option \<Rightarrow> world \<Rightarrow> response \<times> world" where
  "putJson u b base w =
     call \<lparr>verb = PUT, url = u, baseUrl = base, useCache = None, reqBody = Some b\<rparr> w"

text \<open>\<^verbatim>\<open>http.postJson(url, {baseUrl, body})\<close>\<close>

definition postJson :: "string \<Rightarrow> jsval \<Rightarrow> string option \<Rightarrow> world \<Rightarrow> response \<times> world" where
  "postJson u b base w =
     call \<lparr>verb = POST, url = u, baseUrl = base, useCache = None, reqBody = Some b\<rparr> w"

section \<open>init\<close>

text \<open>
  \<^verbatim>\<open>!s\<close> on an optional string is true for \<^verbatim>\<open>undefined\<close> and for the empty string. The
  error message constant and the client built by \<^verbatim>\<open>new Http('self-host', {baseUrl})\<close>
  are parameters.
\<close>

definition falsy :: "string option \<Rightarrow> bool" where
  "falsy s = (s = None \<or> s = Some [])"

definition init ::
  "string \<Rightarrow> (string \<Rightarrow> string option \<Rightarrow> Http) \<Rightarrow> RenovateConfig \<Rightarrow> world \<Rightarrow> js_error + world" where
  "init SELF_HOSTED_DASHBOARD_URL_UNAVAILABLE newHttp config w =
     (if falsy (dependencyDashboardUrl config) then
        Inl (Error SELF_HOSTED_DASHBOARD_URL_UNAVAILABLE)
      else if falsy (configRepository config) then
        Inl (Error ''Repository is null'')
      else
        (case configRepository config of
           None \<Rightarrow> Inl (Error ''Repository is null'')
         | Some r \<Rightarrow>
             Inr (w\<lparr>repository := r,
                    http := newHttp ''self-host'' (dependencyDashboardUrl config),
                    renovateConfig := config\<rparr>)))"

section \<open>getIssueList\<close>

text \<open>The callback \<^verbatim>\<open>(i) => ({ iid: i.iid, title: i.title })\<close>.\<close>

definition project :: "jsval \<Rightarrow> js_error + SelfHostIssue" where
  "project i =
     (case getProp i ''iid'' of
        Inl e \<Rightarrow> Inl e
      | Inr a \<Rightarrow>
          (case getProp i ''title'' of
             Inl e \<Rightarrow> Inl e
           | Inr t \<Rightarrow> Inr (SelfHostIssue a t)))"

text \<open>\<^verbatim>\<open>xs.map(f)\<close> for a callback that may throw: the first throw ends the map.\<close>

fun mapThrowing :: "('a \<Rightarrow> js_error + 'b) \<Rightarrow> 'a list \<Rightarrow> js_error + 'b list" where
  "mapThrowing f [] = Inr []"
| "mapThrowing f (x # xs) =
     (case f x of
        Inl e \<Rightarrow> Inl e
      | Inr y \<Rightarrow> (case mapThrowing f xs of Inl e \<Rightarrow> Inl e | Inr ys \<Rightarrow> Inr (y # ys)))"

fun elements :: "jsval \<Rightarrow> jsval list" where
  "elements (JArr xs) = xs"
| "elements v = []"

definition getIssueList :: "world \<Rightarrow> (js_error + SelfHostIssue list) \<times> world" where
  "getIssueList w =
     (case getJson (repository w @ ''/issues'') None (dependencyDashboardUrl (renovateConfig w)) w of
        (Inl e, w1) \<Rightarrow> (Inl e, w1)
      | (Inr resBody, w1) \<Rightarrow>
          if \<not> is_array resBody then
            (Inr [], logger Warn (ResponseBody resBody) ''Could not retrieve issue list'' w1)
          else
            (case mapThrowing project (elements resBody) of
               Inl e \<Rightarrow> (Inl e, w1)
             | Inr issues \<Rightarrow> (Inr issues, w1\<lparr>issueListCache := issues\<rparr>)))"

section \<open>ensureIssue\<close>

datatype EnsureIssueResult = Updated | Created

text \<open>
  The optional argument \<^verbatim>\<open>reuseTitle\<close> as the value the comparison sees:
  \<^verbatim>\<open>undefined\<close> when the caller left it out.
\<close>

fun optionalString :: "string option \<Rightarrow> jsval" where
  "optionalString None = JUndefined"
| "optionalString (Some s) = JStr s"

text \<open>
  The lookup of lines 57 to 60: the first issue with the title, and only when there is
  none the first issue with the reuse title.
\<close>

definition lookupIssue :: "string \<Rightarrow> string option \<Rightarrow> SelfHostIssue list \<Rightarrow> SelfHostIssue option" where
  "lookupIssue t reuseTitle issueList =
     (case find (\<lambda>i. strictEq (title i) (JStr t)) issueList of
        Some issue \<Rightarrow> Some issue
      | None \<Rightarrow> find (\<lambda>i. strictEq (title i) (optionalString reuseTitle)) issueList)"

text \<open>
  The body of the \<^verbatim>\<open>try\<close> block. \<open>Inl\<close> is a throw; \<open>Inr None\<close> is leaving the block
  without a \<^verbatim>\<open>return\<close>.
\<close>

definition ensureIssueTry ::
  "string \<Rightarrow> string option \<Rightarrow> string \<Rightarrow> world \<Rightarrow> (js_error + EnsureIssueResult option) \<times> world" where
  "ensureIssueTry t reuseTitle description w =
     (case getIssueList w of
        (Inl e, w1) \<Rightarrow> (Inl e, w1)
      | (Inr issueList, w1) \<Rightarrow>
          (case lookupIssue t reuseTitle issueList of
             Some issue \<Rightarrow>
               (case toString (iid issue) of
                  Inl e \<Rightarrow> (Inl e, w1)
                | Inr idText \<Rightarrow>
                    (case getJson (''/'' @ repository w1 @ ''/issues/'' @ idText) None
                            (dependencyDashboardUrl (renovateConfig w1)) w1 of
                       (Inl e, w2) \<Rightarrow> (Inl e, w2)
                     | (Inr resBody, w2) \<Rightarrow>
                         (case getProp resBody ''description'' of
                            Inl e \<Rightarrow> (Inl e, w2)
                          | Inr existingDescription \<Rightarrow>
                              if \<not> strictEq (title issue) (JStr t)
                                 \<or> \<not> strictEq existingDescription (JStr description)
                              then
                                (case toString (iid issue) of
                                   Inl e \<Rightarrow> (Inl e, logger Debug NoContext ''Updating issue'' w2)
                                 | Inr idText2 \<Rightarrow>
                                     (case putJson (repository w2 @ ''/issues/'' @ idText2)
                                             (JObj [(''title'', JStr t),
                                                    (''description'', JStr description)])
                                             (dependencyDashboardUrl (renovateConfig w2))
                                             (logger Debug NoContext ''Updating issue'' w2) of
                                        (Inl e, w3) \<Rightarrow> (Inl e, w3)
                                      | (Inr r, w3) \<Rightarrow> (Inr (Some Updated), w3)))
                              else (Inr None, w2))))
           | None \<Rightarrow>
               (case postJson (''/'' @ repository w1 @ ''/issues'')
                       (JObj [(''title'', JStr t), (''description'', JStr description)])
                       (dependencyDashboardUrl (renovateConfig w1)) w1 of
                  (Inl e, w2) \<Rightarrow> (Inl e, w2)
                | (Inr r, w2) \<Rightarrow>
                    (Inr (Some Created), logger Info NoContext ''Issue created'' w2))))"

text \<open>
  \<^verbatim>\<open>ensureIssue({ title, reuseTitle, body })\<close>. The sanitizer is imported from another
  module and is a parameter; it is a pure function on text. A result \<open>Inr None\<close> is
  the return value \<^verbatim>\<open>null\<close>. The \<^verbatim>\<open>catch\<close> block evaluates \<^verbatim>\<open>err.message.startsWith\<close>
  without a guard (line 90), so it throws itself when the caught value has no message
  string.
\<close>

definition ensureIssue ::
  "(string \<Rightarrow> string) \<Rightarrow> string \<Rightarrow> string option \<Rightarrow> string \<Rightarrow> world
     \<Rightarrow> (js_error + EnsureIssueResult option) \<times> world" where
  "ensureIssue sanitize t reuseTitle body w =
     (let w0 = logger Debug NoContext ''ensureIssue()'' w;
          description = sanitize body
      in case ensureIssueTry t reuseTitle description w0 of
           (Inl err, w1) \<Rightarrow>
             (case caughtMessage err of
                Inl e \<Rightarrow> (Inl e, w1)
              | Inr m \<Rightarrow>
                  (Inr None,
                   if startsWith m ''Issues are disabled for this repo'' then
                     logger Debug NoContext (''Could not create issue: '' @ m) w1
                   else
                     logger Warn (Err err) ''Could not ensure issue'' w1))
         | (Inr r, w1) \<Rightarrow> (Inr r, w1))"

section \<open>ensureIssueClosing\<close>

text \<open>The loop \<^verbatim>\<open>for (const issue of issueList)\<close>; a throw of \<^verbatim>\<open>putJson\<close> ends it.\<close>

fun closeLoop :: "string \<Rightarrow> SelfHostIssue list \<Rightarrow> world \<Rightarrow> (js_error + unit) \<times> world" where
  "closeLoop t [] w = (Inr (), w)"
| "closeLoop t (issue # rest) w =
     (if strictEq (title issue) (JStr t) then
        (case toString (iid issue) of
           Inl e \<Rightarrow> (Inl e, logger Debug (IssueContext issue) ''Closing issue'' w)
         | Inr idText \<Rightarrow>
             (case putJson (repository w @ ''/issues/'' @ idText)
                     (JObj [(''state_event'', JStr ''close'')])
                     (dependencyDashboardUrl (renovateConfig w))
                     (logger Debug (IssueContext issue) ''Closing issue'' w) of
                (Inl e, w1) \<Rightarrow> (Inl e, w1)
              | (Inr r, w1) \<Rightarrow> closeLoop t rest w1))
      else closeLoop t rest w)"

definition ensureIssueClosing :: "string \<Rightarrow> world \<Rightarrow> (js_error + unit) \<times> world" where
  "ensureIssueClosing t w =
     (case getIssueList (logger Debug NoContext ''ensureIssueClosing()'' w) of
        (Inl e, w1) \<Rightarrow> (Inl e, w1)
      | (Inr issueList, w1) \<Rightarrow> closeLoop t issueList w1)"

section \<open>getIssue and findIssue\<close>

datatype Issue = Issue (number: jsval) (body: jsval)

text \<open>The body of the \<^verbatim>\<open>try\<close> block of \<^verbatim>\<open>getIssue\<close>.\<close>

definition getIssueTry :: "jsval \<Rightarrow> bool \<Rightarrow> world \<Rightarrow> (js_error + Issue) \<times> world" where
  "getIssueTry num useCacheFlag w =
     (case toString num of
        Inl e \<Rightarrow> (Inl e, w)
      | Inr idText \<Rightarrow>
          (case getJson (repository w @ ''/issues/'' @ idText) (Some useCacheFlag)
                  (dependencyDashboardUrl (renovateConfig w)) w of
             (Inl e, w1) \<Rightarrow> (Inl e, w1)
           | (Inr resBody, w1) \<Rightarrow>
               (case getProp resBody ''description'' of
                  Inl e \<Rightarrow> (Inl e, w1)
                | Inr issueBody \<Rightarrow> (Inr (Issue num issueBody), w1))))"

text \<open>
  \<^verbatim>\<open>getIssue(number, useCache = true)\<close>: the second argument is \<open>None\<close> when the caller
  leaves it out, and the default then applies.
\<close>

definition getIssue :: "jsval \<Rightarrow> bool option \<Rightarrow> world \<Rightarrow> (js_error + Issue option) \<times> world" where
  "getIssue num useCacheArg w =
     (let useCacheFlag = (case useCacheArg of None \<Rightarrow> True | Some b \<Rightarrow> b)
      in case getIssueTry num useCacheFlag w of
           (Inl err, w1) \<Rightarrow> (Inr None, logger Warn (ErrNumber err num) ''Error getting issue'' w1)
         | (Inr issue, w1) \<Rightarrow> (Inr (Some issue), w1))"

text \<open>The body of the \<^verbatim>\<open>try\<close> block of \<^verbatim>\<open>findIssue\<close>.\<close>

definition findIssueTry :: "string \<Rightarrow> world \<Rightarrow> (js_error + Issue option) \<times> world" where
  "findIssueTry t w =
     (case getIssueList w of
        (Inl e, w1) \<Rightarrow> (Inl e, w1)
      | (Inr issueList, w1) \<Rightarrow>
          (case find (\<lambda>i. strictEq (title i) (JStr t)) issueList of
             None \<Rightarrow> (Inr None, w1)
           | Some issue \<Rightarrow> getIssue (iid issue) None w1))"

definition findIssue :: "string \<Rightarrow> world \<Rightarrow> (js_error + Issue option) \<times> world" where
  "findIssue t w =
     (case findIssueTry t (logger Debug NoContext (''findIssue('' @ t @ '')'') w) of
        (Inl err, w1) \<Rightarrow> (Inr None, logger Warn NoContext ''Error finding issue'' w1)
      | (Inr r, w1) \<Rightarrow> (Inr r, w1))"

section \<open>What an operation sent\<close>

text \<open>The exchanges that took the world from \<open>w\<close> to \<open>w'\<close>, and the log lines written.\<close>

definition sent :: "world \<Rightarrow> world \<Rightarrow> exchange list" where
  "sent w w' = drop (length (network w)) (network w')"

definition logged :: "world \<Rightarrow> world \<Rightarrow> log_entry list" where
  "logged w w' = drop (length (logs w)) (logs w')"

definition requests :: "http_method \<Rightarrow> exchange list \<Rightarrow> request list" where
  "requests m xs = filter (\<lambda>rq. verb rq = m) (map fst xs)"

text \<open>The requests that change the tracker: everything that is not a \<open>GET\<close>.\<close>

definition mutations :: "exchange list \<Rightarrow> request list" where
  "mutations xs = filter (\<lambda>rq. verb rq \<noteq> GET) (map fst xs)"

text \<open>
  The requests of the module, written out once more for the statements below: the list
  fetch (line 34), the description fetch of \<^verbatim>\<open>ensureIssue\<close> (line 63), its update
  (line 72) and its create (line 79), the close of \<^verbatim>\<open>ensureIssueClosing\<close> (line 105) and
  the fetch of \<^verbatim>\<open>getIssue\<close> (line 119). Where a URL names an issue, \<open>idText\<close> is the
  text that \<open>toString\<close> gave for its \<^verbatim>\<open>iid\<close>.
\<close>

definition listRequest :: "world \<Rightarrow> request" where
  "listRequest w =
     \<lparr>verb = GET, url = repository w @ ''/issues'',
      baseUrl = dependencyDashboardUrl (renovateConfig w), useCache = None, reqBody = None\<rparr>"

definition descriptionRequest :: "world \<Rightarrow> string \<Rightarrow> request" where
  "descriptionRequest w idText =
     \<lparr>verb = GET, url = ''/'' @ repository w @ ''/issues/'' @ idText,
      baseUrl = dependencyDashboardUrl (renovateConfig w), useCache = None, reqBody = None\<rparr>"

definition updateRequest :: "world \<Rightarrow> string \<Rightarrow> string \<Rightarrow> string \<Rightarrow> request" where
  "updateRequest w idText t description =
     \<lparr>verb = PUT, url = repository w @ ''/issues/'' @ idText,
      baseUrl = dependencyDashboardUrl (renovateConfig w), useCache = None,
      reqBody = Some (JObj [(''title'', JStr t), (''description'', JStr description)])\<rparr>"

definition createRequest :: "world \<Rightarrow> string \<Rightarrow> string \<Rightarrow> request" where
  "createRequest w t description =
     \<lparr>verb = POST, url = ''/'' @ repository w @ ''/issues'',
      baseUrl = dependencyDashboardUrl (renovateConfig w), useCache = None,
      reqBody = Some (JObj [(''title'', JStr t), (''description'', JStr description)])\<rparr>"

definition closeRequest :: "world \<Rightarrow> string \<Rightarrow> request" where
  "closeRequest w idText =
     \<lparr>verb = PUT, url = repository w @ ''/issues/'' @ idText,
      baseUrl = dependencyDashboardUrl (renovateConfig w), useCache = None,
      reqBody = Some (JObj [(''state_event'', JStr ''close'')])\<rparr>"

definition issueRequest :: "world \<Rightarrow> string \<Rightarrow> bool \<Rightarrow> request" where
  "issueRequest w idText useCacheFlag =
     \<lparr>verb = GET, url = repository w @ ''/issues/'' @ idText,
      baseUrl = dependencyDashboardUrl (renovateConfig w), useCache = Some useCacheFlag,
      reqBody = None\<rparr>"

section \<open>Example collaborators\<close>

text \<open>
  Concrete inputs for the examples: an initialised module, a client that gives the
  \<open>n\<close>-th call the \<open>n\<close>-th answer of a script, a sanitizer that drops exclamation marks,
  and the two shapes of response body the tracker sends.
\<close>

definition exampleConfig :: RenovateConfig where
  "exampleConfig =
     \<lparr>dependencyDashboardUrl = Some ''https://dash.example'',
      configRepository = Some ''org/repo''\<rparr>"

definition exampleWorld :: "Http \<Rightarrow> SelfHostIssue list \<Rightarrow> world" where
  "exampleWorld client cache =
     \<lparr>repository = ''org/repo'', http = client, issueListCache = cache,
      renovateConfig = exampleConfig, network = [], logs = []\<rparr>"

definition scripted :: "response list \<Rightarrow> Http" where
  "scripted answers history rq =
     (if length history < length answers then answers ! length history
      else Inl (Error ''no answer scripted''))"

definition exampleSanitize :: "string \<Rightarrow> string" where
  "exampleSanitize s = filter (\<lambda>c. c \<noteq> CHR ''!'') s"

definition issueObject :: "string \<Rightarrow> string \<Rightarrow> jsval" where
  "issueObject n t = JObj [(''iid'', JNum n), (''title'', JStr t), (''state'', JStr ''opened'')]"

definition descriptionObject :: "string \<Rightarrow> jsval" where
  "descriptionObject d = JObj [(''state'', JStr ''opened''), (''description'', JStr d)]"


text \<open>A tracker that lists two issues with the same title and keeps a description for each.\<close>

definition twoDashboards :: Http where
  "twoDashboards history rq =
     (if verb rq = GET \<and> url rq = ''org/repo/issues'' then
        Inr (JArr [issueObject ''1'' ''Dashboard'', issueObject ''2'' ''Dashboard''])
      else if verb rq = GET \<and> url rq = ''/org/repo/issues/1'' then
        Inr (descriptionObject ''old text'')
      else if verb rq = GET \<and> url rq = ''/org/repo/issues/2'' then
        Inr (descriptionObject ''B'')
      else Inr JNull)"

section \<open>Basic facts\<close>

lemma call_eq:
  "call rq w =
     (http w (network w) rq, w\<lparr>network := network w @ [(rq, http w (network w) rq)]\<rparr>)"
  by (simp add: call_def Let_def)

lemma logger_fields [simp]:
  "network (logger lv ctx msg w) = network w"
  "repository (logger lv ctx msg w) = repository w"
  "http (logger lv ctx msg w) = http w"
  "renovateConfig (logger lv ctx msg w) = renovateConfig w"
  "issueListCache (logger lv ctx msg w) = issueListCache w"
  "logs (logger lv ctx msg w) = logs w @ [LogEntry lv ctx msg]"
  by (simp_all add: logger_def)

lemma listRequest_logger [simp]: "listRequest (logger lv ctx msg w) = listRequest w"
  by (simp add: listRequest_def)

lemma find_SomeD: "find P xs = Some x \<Longrightarrow> x \<in> set xs \<and> P x"
  by (induction xs) (auto split: if_splits)

subsection \<open>Conversion to a string\<close>

lemma sequenceThrowing_Inl: "sequenceThrowing rs = Inl e \<Longrightarrow> Inl e \<in> set rs"
  by (induction rs rule: sequenceThrowing.induct) (auto split: sum.splits)

text \<open>Whatever the conversion throws is a \<open>TypeError\<close>, which has a message.\<close>

lemma toString_throws: "toString v = Inl e \<Longrightarrow> \<exists>m. e = TypeError m"
proof (induction v rule: toString.induct)
  case (6 xs)
  from "6.prems" have "sequenceThrowing
      (map (\<lambda>x. if x = JUndefined \<or> x = JNull then Inr [] else toString x) xs) = Inl e"
    by (simp split: sum.splits)
  from sequenceThrowing_Inl [OF this] obtain x
    where "x \<in> set xs" "x \<noteq> JUndefined" "x \<noteq> JNull" "toString x = Inl e"
    by (auto split: if_splits)
  with "6.IH" show ?case
    by blast
qed (auto split: if_splits)

lemma toString_caught: "toString v = Inl e \<Longrightarrow> \<exists>m. caughtMessage e = Inr m"
  by (auto dest: toString_throws simp: caughtMessage_def)

text \<open>A number and a string always convert.\<close>

lemma toString_number: "toString (JNum n) = Inr n" "toString (JStr s) = Inr s"
  by simp_all

subsection \<open>getIssueList\<close>

text \<open>The list fetch sends one request and leaves the module variables other than the cache alone.\<close>

lemma getIssueList_world:
  assumes "getIssueList w = (r, w1)"
  shows "network w1 = network w @ [(listRequest w, http w (network w) (listRequest w))]
       \<and> repository w1 = repository w \<and> http w1 = http w
       \<and> renovateConfig w1 = renovateConfig w"
  using assms
  by (auto simp: getIssueList_def getJson_def call_eq logger_def listRequest_def
      split: sum.splits if_splits)

lemma getIssueList_throw:
  "http w (network w) (listRequest w) = Inl e \<Longrightarrow> getIssueList w = (r, w1) \<Longrightarrow> r = Inl e"
  by (auto simp: getIssueList_def getJson_def call_eq listRequest_def)

lemma getIssueList_return:
  "getIssueList w = (Inr issueList, w1) \<Longrightarrow> \<exists>resBody. http w (network w) (listRequest w) = Inr resBody"
  by (auto simp: getIssueList_def getJson_def call_eq listRequest_def split: sum.splits)

lemma getIssueList_logs:
  "getIssueList w = (r, w1) \<Longrightarrow> \<exists>ys. logs w1 = logs w @ ys"
  by (auto simp: getIssueList_def getJson_def call_eq split: sum.splits if_splits)

lemma project_throws: "project i = Inl e \<Longrightarrow> \<exists>m. e = TypeError m"
  by (cases i) (auto simp: project_def split: sum.splits)

lemma mapThrowing_project: "mapThrowing project xs = Inl e \<Longrightarrow> \<exists>m. e = TypeError m"
  by (induction xs) (auto split: sum.splits dest: project_throws)

text \<open>A throw of the list fetch is a throw of the client or a \<open>TypeError\<close> of the projection.\<close>

lemma getIssueList_origin:
  assumes "getIssueList w = (Inl e, w1)"
  shows "http w (network w) (listRequest w) = Inl e \<or> (\<exists>m. e = TypeError m)"
  using assms
  by (auto simp: getIssueList_def getJson_def call_eq listRequest_def
      split: sum.splits if_splits dest: mapThrowing_project)

lemma sent_after_list:
  assumes fetched: "getIssueList (logger lv ctx msg w) = (r1, w1)"
    and grows: "\<exists>ys. network w' = network w1 @ ys"
  shows "sent w w' = (listRequest w, http w (network w) (listRequest w)) # sent w1 w'"
  using getIssueList_world [OF fetched] grows
  by (auto simp: sent_def)

lemma sent_append:
  "network w1 = network w @ xs \<Longrightarrow> network w2 = network w1 @ ys \<Longrightarrow> sent w w2 = sent w w1 @ sent w1 w2"
  by (simp add: sent_def)

lemma mutations_append [simp]: "mutations (xs @ ys) = mutations xs @ mutations ys"
  by (simp add: mutations_def)

subsection \<open>ensureIssue\<close>

lemma lookupIssue_None:
  "\<forall>i\<in>set issueList. \<not> strictEq (title i) (JStr t) \<Longrightarrow>
   \<forall>i\<in>set issueList. \<not> strictEq (title i) (optionalString reuseTitle) \<Longrightarrow>
   lookupIssue t reuseTitle issueList = None"
  by (auto simp: lookupIssue_def find_None_iff split: option.splits dest: find_SomeD)

lemma ensureIssueTry_world:
  assumes "ensureIssueTry t reuseTitle d w = (r, w')"
  shows "(\<exists>xs. network w' = network w @ xs) \<and> repository w' = repository w \<and> http w' = http w
       \<and> renovateConfig w' = renovateConfig w"
proof (cases "getIssueList w")
  case (Pair r1 w1)
  note frame = getIssueList_world [OF Pair]
  show ?thesis
    using assms frame
    by (auto simp: ensureIssueTry_def Pair getJson_def putJson_def postJson_def call_eq
        split: sum.splits option.splits if_splits)
qed

lemma ensureIssue_network:
  assumes "ensureIssue sanitize t reuseTitle b w = (r, w')"
  shows "network w' =
           network (snd (ensureIssueTry t reuseTitle (sanitize b)
                           (logger Debug NoContext ''ensureIssue()'' w)))"
  using assms
  by (auto simp: ensureIssue_def Let_def split: sum.splits prod.splits if_splits)

lemma ensureIssue_world:
  assumes "ensureIssue sanitize t reuseTitle b w = (r, w')"
  shows "\<exists>xs. network w' = network w @ xs"
proof (cases "ensureIssueTry t reuseTitle (sanitize b) (logger Debug NoContext ''ensureIssue()'' w)")
  case (Pair r1 w1)
  from ensureIssueTry_world [OF Pair] ensureIssue_network [OF assms] show ?thesis
    by (auto simp: Pair)
qed

text \<open>The \<^verbatim>\<open>try\<close> block after a list fetch that returned.\<close>

lemma ensureIssueTry_fetched:
  assumes "getIssueList w0 = (Inr issueList, w1)"
  shows "ensureIssueTry t reuseTitle d w0 =
     (case lookupIssue t reuseTitle issueList of
        Some issue \<Rightarrow>
          (case toString (iid issue) of
             Inl e \<Rightarrow> (Inl e, w1)
           | Inr idText \<Rightarrow>
               (case getJson (''/'' @ repository w1 @ ''/issues/'' @ idText) None
                       (dependencyDashboardUrl (renovateConfig w1)) w1 of
                  (Inl e, w2) \<Rightarrow> (Inl e, w2)
                | (Inr resBody, w2) \<Rightarrow>
                    (case getProp resBody ''description'' of
                       Inl e \<Rightarrow> (Inl e, w2)
                     | Inr existingDescription \<Rightarrow>
                         if \<not> strictEq (title issue) (JStr t)
                            \<or> \<not> strictEq existingDescription (JStr d)
                         then
                           (case putJson (repository w2 @ ''/issues/'' @ idText)
                                   (JObj [(''title'', JStr t), (''description'', JStr d)])
                                   (dependencyDashboardUrl (renovateConfig w2))
                                   (logger Debug NoContext ''Updating issue'' w2) of
                              (Inl e, w3) \<Rightarrow> (Inl e, w3)
                            | (Inr r, w3) \<Rightarrow> (Inr (Some Updated), w3))
                         else (Inr None, w2))))
      | None \<Rightarrow>
          (case postJson (''/'' @ repository w1 @ ''/issues'')
                  (JObj [(''title'', JStr t), (''description'', JStr d)])
                  (dependencyDashboardUrl (renovateConfig w1)) w1 of
             (Inl e, w2) \<Rightarrow> (Inl e, w2)
           | (Inr r, w2) \<Rightarrow> (Inr (Some Created), logger Info NoContext ''Issue created'' w2)))"
  by (simp add: ensureIssueTry_def assms split: option.splits sum.splits prod.splits)

text \<open>What \<^verbatim>\<open>ensureIssue\<close> returns, from what its \<^verbatim>\<open>try\<close> block did.\<close>

lemma ensureIssue_result:
  assumes "ensureIssueTry t reuseTitle (sanitize b) (logger Debug NoContext ''ensureIssue()'' w) = (r1, v)"
    and "ensureIssue sanitize t reuseTitle b w = (r, w')"
  shows "r = (case r1 of
                Inl e \<Rightarrow> (case caughtMessage e of Inl e' \<Rightarrow> Inl e' | Inr m \<Rightarrow> Inr None)
              | Inr x \<Rightarrow> Inr x)"
    and "network w' = network v"
  using assms by (auto simp: ensureIssue_def Let_def split: sum.splits if_splits)

lemma ensureIssue_after_list:
  assumes fetched: "getIssueList (logger Debug NoContext ''ensureIssue()'' w) = (r1, w1)"
    and run: "ensureIssue sanitize t reuseTitle b w = (r, w')"
  shows "\<exists>ys. network w' = network w1 @ ys"
proof (cases "ensureIssueTry t reuseTitle (sanitize b) (logger Debug NoContext ''ensureIssue()'' w)")
  case (Pair r2 v)
  have "\<exists>ys. network v = network w1 @ ys"
    using Pair getIssueList_world [OF fetched]
    by (auto simp: ensureIssueTry_def fetched getJson_def putJson_def postJson_def call_eq
        split: sum.splits option.splits if_splits)
  with ensureIssue_result(2) [OF Pair run] show ?thesis
    by simp
qed

lemma ensureIssue_Created:
  assumes "ensureIssue sanitize t reuseTitle b w = (Inr (Some Created), w')"
  shows "mutations (sent w w') = [createRequest w t (sanitize b)]"
proof (cases "ensureIssueTry t reuseTitle (sanitize b) (logger Debug NoContext ''ensureIssue()'' w)")
  case (Pair r2 v)
  from ensureIssue_result [OF Pair assms] have r2: "r2 = Inr (Some Created)"
    and net: "network w' = network v"
    by (auto split: sum.splits)
  obtain r1 w1 where fetched: "getIssueList (logger Debug NoContext ''ensureIssue()'' w) = (r1, w1)"
    by (cases "getIssueList (logger Debug NoContext ''ensureIssue()'' w)")
  note frame = getIssueList_world [OF fetched]
  have "mutations (sent w v) = [createRequest w t (sanitize b)]"
    using Pair frame
    by (auto simp: r2 ensureIssueTry_def fetched getJson_def putJson_def postJson_def call_eq
        sent_def mutations_def createRequest_def listRequest_def
        split: sum.splits option.splits if_splits)
  then show ?thesis
    by (simp add: sent_def net)
qed

text \<open>The found-issue branch (lines 62 to 77), for an issue whose \<^verbatim>\<open>iid\<close> converts.\<close>

lemma ensureIssueTry_found:
  assumes fetched: "getIssueList w0 = (Inr issueList, w1)"
    and found: "lookupIssue t reuseTitle issueList = Some issue"
    and renders: "toString (iid issue) = Inr idText"
    and run: "ensureIssueTry t reuseTitle d w0 = (r, v)"
  shows "sent w1 v =
           (descriptionRequest w1 idText, http w1 (network w1) (descriptionRequest w1 idText)) #
           (case http w1 (network w1) (descriptionRequest w1 idText) of
              Inl e \<Rightarrow> []
            | Inr resBody \<Rightarrow>
                (case getProp resBody ''description'' of
                   Inl e \<Rightarrow> []
                 | Inr x \<Rightarrow>
                     if \<not> strictEq (title issue) (JStr t) \<or> \<not> strictEq x (JStr d)
                     then [(updateRequest w1 idText t d,
                            http w1 (network w1 @ [(descriptionRequest w1 idText, Inr resBody)])
                              (updateRequest w1 idText t d))]
                     else []))"
    and "r =
           (case http w1 (network w1) (descriptionRequest w1 idText) of
              Inl e \<Rightarrow> Inl e
            | Inr resBody \<Rightarrow>
                (case getProp resBody ''description'' of
                   Inl e \<Rightarrow> Inl e
                 | Inr x \<Rightarrow>
                     if \<not> strictEq (title issue) (JStr t) \<or> \<not> strictEq x (JStr d)
                     then (case http w1 (network w1 @ [(descriptionRequest w1 idText, Inr resBody)])
                                  (updateRequest w1 idText t d) of
                             Inl e \<Rightarrow> Inl e
                           | Inr y \<Rightarrow> Inr (Some Updated))
                     else Inr None))"
  using run
  by (auto simp: ensureIssueTry_fetched [OF fetched] found renders getJson_def putJson_def
      call_eq sent_def descriptionRequest_def updateRequest_def split: sum.splits if_splits)

lemma request_frames:
  assumes "repository w1 = repository w" "renovateConfig w1 = renovateConfig w"
  shows "descriptionRequest w1 = descriptionRequest w" "updateRequest w1 = updateRequest w"
    "closeRequest w1 = closeRequest w" "issueRequest w1 = issueRequest w"
    "createRequest w1 = createRequest w"
  using assms
  by (simp_all add: descriptionRequest_def updateRequest_def closeRequest_def issueRequest_def
      createRequest_def fun_eq_iff)

lemma ensureIssue_found:
  assumes fetched: "getIssueList (logger Debug NoContext ''ensureIssue()'' w) = (Inr issueList, w1)"
    and found: "lookupIssue t reuseTitle issueList = Some issue"
    and renders: "toString (iid issue) = Inr idText"
    and run: "ensureIssue sanitize t reuseTitle b w = (r, w')"
  shows "sent w1 w' =
           (descriptionRequest w idText, http w (network w1) (descriptionRequest w idText)) #
           (case http w (network w1) (descriptionRequest w idText) of
              Inl e \<Rightarrow> []
            | Inr resBody \<Rightarrow>
                (case getProp resBody ''description'' of
                   Inl e \<Rightarrow> []
                 | Inr x \<Rightarrow>
                     if \<not> strictEq (title issue) (JStr t) \<or> \<not> strictEq x (JStr (sanitize b))
                     then [(updateRequest w idText t (sanitize b),
                            http w (network w1 @ [(descriptionRequest w idText, Inr resBody)])
                              (updateRequest w idText t (sanitize b)))]
                     else []))"
    and "r =
           (case http w (network w1) (descriptionRequest w idText) of
              Inl e \<Rightarrow> (case caughtMessage e of Inl e' \<Rightarrow> Inl e' | Inr m \<Rightarrow> Inr None)
            | Inr resBody \<Rightarrow>
                (case getProp resBody ''description'' of
                   Inl e \<Rightarrow> (case caughtMessage e of Inl e' \<Rightarrow> Inl e' | Inr m \<Rightarrow> Inr None)
                 | Inr x \<Rightarrow>
                     if \<not> strictEq (title issue) (JStr t) \<or> \<not> strictEq x (JStr (sanitize b))
                     then (case http w (network w1 @ [(descriptionRequest w idText, Inr resBody)])
                                  (updateRequest w idText t (sanitize b)) of
                             Inl e \<Rightarrow>
                               (case caughtMessage e of Inl e' \<Rightarrow> Inl e' | Inr m \<Rightarrow> Inr None)
                           | Inr y \<Rightarrow> Inr (Some Updated))
                     else Inr None))"
proof -
  obtain r2 v
    where body: "ensureIssueTry t reuseTitle (sanitize b) (logger Debug NoContext ''ensureIssue()'' w)
      = (r2, v)"
    by (cases "ensureIssueTry t reuseTitle (sanitize b) (logger Debug NoContext ''ensureIssue()'' w)")
  from getIssueList_world [OF fetched]
  have frame: "repository w1 = repository w" "renovateConfig w1 = renovateConfig w"
    and client: "http w1 = http w"
    by simp_all
  note same = request_frames [OF frame]
  note branch = ensureIssueTry_found [OF fetched found renders body, unfolded same client]
  note result = ensureIssue_result [OF body run]
  show "sent w1 w' =
           (descriptionRequest w idText, http w (network w1) (descriptionRequest w idText)) #
           (case http w (network w1) (descriptionRequest w idText) of
              Inl e \<Rightarrow> []
            | Inr resBody \<Rightarrow>
                (case getProp resBody ''description'' of
                   Inl e \<Rightarrow> []
                 | Inr x \<Rightarrow>
                     if \<not> strictEq (title issue) (JStr t) \<or> \<not> strictEq x (JStr (sanitize b))
                     then [(updateRequest w idText t (sanitize b),
                            http w (network w1 @ [(descriptionRequest w idText, Inr resBody)])
                              (updateRequest w idText t (sanitize b)))]
                     else []))"
    using branch(1) result(2) by (simp add: sent_def)
  show "r =
           (case http w (network w1) (descriptionRequest w idText) of
              Inl e \<Rightarrow> (case caughtMessage e of Inl e' \<Rightarrow> Inl e' | Inr m \<Rightarrow> Inr None)
            | Inr resBody \<Rightarrow>
                (case getProp resBody ''description'' of
                   Inl e \<Rightarrow> (case caughtMessage e of Inl e' \<Rightarrow> Inl e' | Inr m \<Rightarrow> Inr None)
                 | Inr x \<Rightarrow>
                     if \<not> strictEq (title issue) (JStr t) \<or> \<not> strictEq x (JStr (sanitize b))
                     then (case http w (network w1 @ [(descriptionRequest w idText, Inr resBody)])
                                  (updateRequest w idText t (sanitize b)) of
                             Inl e \<Rightarrow>
                               (case caughtMessage e of Inl e' \<Rightarrow> Inl e' | Inr m \<Rightarrow> Inr None)
                           | Inr y \<Rightarrow> Inr (Some Updated))
                     else Inr None))"
    using branch(2) result(1) by (auto split: sum.splits if_splits)
qed

text \<open>The found-issue branch for an issue whose \<^verbatim>\<open>iid\<close> does not convert: nothing is sent.\<close>

lemma ensureIssue_unprintable:
  assumes fetched: "getIssueList (logger Debug NoContext ''ensureIssue()'' w) = (Inr issueList, w1)"
    and found: "lookupIssue t reuseTitle issueList = Some issue"
    and throws: "toString (iid issue) = Inl e"
    and run: "ensureIssue sanitize t reuseTitle b w = (r, w')"
  shows "sent w1 w' = [] \<and> r = Inr None"
proof -
  have body: "ensureIssueTry t reuseTitle (sanitize b) (logger Debug NoContext ''ensureIssue()'' w)
      = (Inl e, w1)"
    by (simp add: ensureIssueTry_fetched [OF fetched] found throws)
  from toString_caught [OF throws] obtain m where "caughtMessage e = Inr m"
    by blast
  with ensureIssue_result [OF body run] show ?thesis
    by (simp add: sent_def)
qed

lemma ensureIssue_found_shape:
  assumes fetched: "getIssueList (logger Debug NoContext ''ensureIssue()'' w) = (Inr issueList, w1)"
    and found: "lookupIssue t reuseTitle issueList = Some issue"
    and run: "ensureIssue sanitize t reuseTitle b w = (r, w')"
  shows "requests POST (sent w w') = []
       \<and> (case toString (iid issue) of
            Inl e \<Rightarrow> sent w1 w' = []
          | Inr idText \<Rightarrow>
              (\<exists>rest. sent w1 w' =
                  (descriptionRequest w idText, http w (network w1) (descriptionRequest w idText)) # rest
                \<and> (rest = [] \<or> (\<exists>rs. rest = [(updateRequest w idText t (sanitize b), rs)]))))"
proof -
  from sent_after_list [OF fetched ensureIssue_after_list [OF fetched run]]
  have all: "sent w w' = (listRequest w, http w (network w) (listRequest w)) # sent w1 w'" .
  show ?thesis
  proof (cases "toString (iid issue)")
    case (Inl e)
    from ensureIssue_unprintable [OF fetched found Inl run] all show ?thesis
      by (simp add: Inl requests_def listRequest_def)
  next
    case (Inr idText)
    from ensureIssue_found(1) [OF fetched found Inr run]
    obtain rest where rest: "sent w1 w' =
         (descriptionRequest w idText, http w (network w1) (descriptionRequest w idText)) # rest"
      and shape: "rest = [] \<or> (\<exists>rs. rest = [(updateRequest w idText t (sanitize b), rs)])"
      by (auto split: sum.splits if_splits)
    with all have "requests POST (sent w w') = []"
      by (auto simp: requests_def listRequest_def descriptionRequest_def updateRequest_def)
    with rest shape show ?thesis
      by (auto simp: Inr)
  qed
qed

lemmas list_eval =
  getIssueList_def getJson_def call_eq project_def exampleWorld_def exampleConfig_def
  scripted_def issueObject_def

lemmas eval_defs =
  ensureIssue_def Let_def ensureIssueTry_def lookupIssue_def getIssueList_def getJson_def putJson_def
  postJson_def call_eq project_def startsWith_def caughtMessage_def
  exampleWorld_def exampleConfig_def scripted_def exampleSanitize_def issueObject_def
  descriptionObject_def

subsection \<open>ensureIssueClosing\<close>

text \<open>
  The closing loop, by induction on the list it walks. The requests go to the first
  \<open>k\<close> issues with the title; every request but the last has returned; the loop returns
  only after all of them, and throws only what its last request threw or what the
  conversion of the next \<^verbatim>\<open>iid\<close> threw.
\<close>

lemma closeLoop_run:
  assumes "closeLoop t issues w = (r, w')"
  shows "\<exists>xs k ids. network w' = network w @ xs
       \<and> http w' = http w \<and> repository w' = repository w \<and> renovateConfig w' = renovateConfig w
       \<and> k \<le> length (filter (\<lambda>i. strictEq (title i) (JStr t)) issues)
       \<and> map (\<lambda>i. toString (iid i)) (take k (filter (\<lambda>i. strictEq (title i) (JStr t)) issues))
           = map Inr ids
       \<and> map fst xs = map (closeRequest w) ids
       \<and> (\<forall>x\<in>set (butlast xs). \<exists>v. snd x = Inr v)
       \<and> (case r of
            Inr u \<Rightarrow>
              k = length (filter (\<lambda>i. strictEq (title i) (JStr t)) issues)
              \<and> (\<forall>x\<in>set xs. \<exists>v. snd x = Inr v)
          | Inl e \<Rightarrow>
              (xs \<noteq> [] \<and> snd (last xs) = Inl e)
              \<or> (k < length (filter (\<lambda>i. strictEq (title i) (JStr t)) issues)
                 \<and> toString (iid (filter (\<lambda>i. strictEq (title i) (JStr t)) issues ! k)) = Inl e
                 \<and> (\<forall>x\<in>set xs. \<exists>v. snd x = Inr v)))"
  using assms
proof (induction issues arbitrary: w)
  case Nil
  then show ?case
    by auto
next
  case (Cons issue rest)
  let ?P = "\<lambda>i. strictEq (title i) (JStr t)"
  show ?case
  proof (cases "?P issue")
    case False
    with Cons.prems have "closeLoop t rest w = (r, w')"
      by simp
    moreover from False have "filter ?P (issue # rest) = filter ?P rest"
      by simp
    ultimately show ?thesis
      using Cons.IH by presburger
  next
    case True
    let ?w0 = "logger Debug (IssueContext issue) ''Closing issue'' w"
    show ?thesis
    proof (cases "toString (iid issue)")
      case (Inl e)
      with Cons.prems True have r: "r = Inl e" and w': "w' = ?w0"
        by simp_all
      show ?thesis
        using True Inl
        by (intro exI [of _ "[]"] exI [of _ 0]) (simp add: r w')
    next
      case (Inr idText)
      let ?rq = "closeRequest w idText"
      let ?rs = "http w (network w) ?rq"
      let ?w1 = "?w0\<lparr>network := network w @ [(?rq, ?rs)]\<rparr>"
      have put: "putJson (repository w @ ''/issues/'' @ idText)
                   (JObj [(''state_event'', JStr ''close'')])
                   (dependencyDashboardUrl (renovateConfig w)) ?w0 = (?rs, ?w1)"
        by (simp add: putJson_def call_eq closeRequest_def)
      show ?thesis
      proof (cases ?rs)
        case (Inl e)
        with Cons.prems True Inr put have r: "r = Inl e" and w': "w' = ?w1"
          by simp_all
        show ?thesis
          using True Inr Inl
          by (intro exI [of _ "[(?rq, Inl e)]"] exI [of _ 1] exI [of _ "[idText]"])
             (simp add: r w' logger_def)
      next
        case ok: (Inr v)
        with Cons.prems True Inr put have loop: "closeLoop t rest ?w1 = (r, w')"
          by simp
        have same: "closeRequest ?w1 = closeRequest w"
          by (simp add: closeRequest_def fun_eq_iff logger_def)
        from Cons.IH [OF loop] obtain xs k ids
          where net: "network w' = network ?w1 @ xs"
            and frame: "http w' = http ?w1" "repository w' = repository ?w1"
              "renovateConfig w' = renovateConfig ?w1"
            and k: "k \<le> length (filter ?P rest)"
            and ids: "map (\<lambda>i. toString (iid i)) (take k (filter ?P rest)) = map Inr ids"
            and reqs: "map fst xs = map (closeRequest w) ids"
            and before: "\<forall>x\<in>set (butlast xs). \<exists>v. snd x = Inr v"
            and res: "case r of
                Inr u \<Rightarrow> k = length (filter ?P rest) \<and> (\<forall>x\<in>set xs. \<exists>v. snd x = Inr v)
              | Inl e \<Rightarrow>
                  (xs \<noteq> [] \<and> snd (last xs) = Inl e)
                  \<or> (k < length (filter ?P rest)
                     \<and> toString (iid (filter ?P rest ! k)) = Inl e
                     \<and> (\<forall>x\<in>set xs. \<exists>v. snd x = Inr v))"
          unfolding same by blast
        let ?ys = "(?rq, ?rs) # xs"
        have 1: "network w' = network w @ ?ys"
          by (simp add: net)
        have 2: "http w' = http w" "repository w' = repository w"
          "renovateConfig w' = renovateConfig w"
          using frame by (simp_all add: logger_def)
        have 3: "Suc k \<le> length (filter ?P (issue # rest))"
          using True k by simp
        have 4: "map (\<lambda>i. toString (iid i)) (take (Suc k) (filter ?P (issue # rest)))
            = map Inr (idText # ids)"
          using True ids Inr by simp
        have 5: "map fst ?ys = map (closeRequest w) (idText # ids)"
          using reqs by simp
        have 6: "\<forall>x\<in>set (butlast ?ys). \<exists>v. snd x = Inr v"
          using before ok by auto
        have 7: "case r of
                Inr u \<Rightarrow> Suc k = length (filter ?P (issue # rest))
                  \<and> (\<forall>x\<in>set ?ys. \<exists>v. snd x = Inr v)
              | Inl e \<Rightarrow>
                  (?ys \<noteq> [] \<and> snd (last ?ys) = Inl e)
                  \<or> (Suc k < length (filter ?P (issue # rest))
                     \<and> toString (iid (filter ?P (issue # rest) ! Suc k)) = Inl e
                     \<and> (\<forall>x\<in>set ?ys. \<exists>v. snd x = Inr v))"
          using res True ok by (auto split: sum.splits)
        from 1 2 3 4 5 6 7 show ?thesis
          by (intro exI [of _ ?ys] exI [of _ "Suc k"] exI [of _ "idText # ids"]) blast
      qed
    qed
  qed
qed

lemma filter_closeRequest [simp]:
  "filter (\<lambda>rq. verb rq = PUT) (map (closeRequest w) ys) = map (closeRequest w) ys"
  "filter (\<lambda>rq. verb rq = POST) (map (closeRequest w) ys) = []"
  by (induction ys) (simp_all add: closeRequest_def)

lemma ensureIssueClosing_run:
  assumes fetched: "getIssueList (logger Debug NoContext ''ensureIssueClosing()'' w) = (Inr issueList, w1)"
    and run: "ensureIssueClosing t w = (r, w')"
  shows "sent w w' = (listRequest w, http w (network w) (listRequest w)) # sent w1 w'
       \<and> (\<exists>k ids.
             k \<le> length (filter (\<lambda>i. strictEq (title i) (JStr t)) issueList)
           \<and> map (\<lambda>i. toString (iid i)) (take k (filter (\<lambda>i. strictEq (title i) (JStr t)) issueList))
               = map Inr ids
           \<and> map fst (sent w1 w') = map (closeRequest w) ids
           \<and> (\<forall>x\<in>set (butlast (sent w1 w')). \<exists>v. snd x = Inr v)
           \<and> (case r of
                Inr u \<Rightarrow>
                  k = length (filter (\<lambda>i. strictEq (title i) (JStr t)) issueList)
                  \<and> (\<forall>x\<in>set (sent w1 w'). \<exists>v. snd x = Inr v)
              | Inl e \<Rightarrow>
                  (sent w1 w' \<noteq> [] \<and> snd (last (sent w1 w')) = Inl e)
                  \<or> (k < length (filter (\<lambda>i. strictEq (title i) (JStr t)) issueList)
                     \<and> toString (iid (filter (\<lambda>i. strictEq (title i) (JStr t)) issueList ! k)) = Inl e
                     \<and> (\<forall>x\<in>set (sent w1 w'). \<exists>v. snd x = Inr v))))"
proof -
  note frame = getIssueList_world [OF fetched]
  from run have loop: "closeLoop t issueList w1 = (r, w')"
    by (simp add: ensureIssueClosing_def fetched)
  have same: "closeRequest w1 = closeRequest w"
    using frame by (simp add: closeRequest_def fun_eq_iff)
  from closeLoop_run [OF loop] obtain xs k ids
    where net: "network w' = network w1 @ xs"
      and facts: "k \<le> length (filter (\<lambda>i. strictEq (title i) (JStr t)) issueList)"
        "map (\<lambda>i. toString (iid i)) (take k (filter (\<lambda>i. strictEq (title i) (JStr t)) issueList))
           = map Inr ids"
        "map fst xs = map (closeRequest w) ids"
        "\<forall>x\<in>set (butlast xs). \<exists>v. snd x = Inr v"
        "case r of
            Inr u \<Rightarrow>
              k = length (filter (\<lambda>i. strictEq (title i) (JStr t)) issueList)
              \<and> (\<forall>x\<in>set xs. \<exists>v. snd x = Inr v)
          | Inl e \<Rightarrow>
              (xs \<noteq> [] \<and> snd (last xs) = Inl e)
              \<or> (k < length (filter (\<lambda>i. strictEq (title i) (JStr t)) issueList)
                 \<and> toString (iid (filter (\<lambda>i. strictEq (title i) (JStr t)) issueList ! k)) = Inl e
                 \<and> (\<forall>x\<in>set xs. \<exists>v. snd x = Inr v))"
    unfolding same by blast
  have xs: "sent w1 w' = xs"
    by (simp add: sent_def net)
  have "\<exists>ys. network w' = network w1 @ ys"
    using net by blast
  from sent_after_list [OF fetched this] facts show ?thesis
    unfolding xs by blast
qed

lemmas close_eval =
  ensureIssueClosing_def getIssueList_def getJson_def putJson_def call_eq project_def
  exampleWorld_def exampleConfig_def scripted_def issueObject_def

subsection \<open>getIssue, findIssue and the catch blocks\<close>

text \<open>The fetch of one issue, the search by title, and what the three \<^verbatim>\<open>catch\<close> blocks do.\<close>

lemma getIssue_run:
  assumes "getIssue num useCacheArg w = (r, w')"
  shows "sent w w' =
           (case toString num of
              Inl e \<Rightarrow> []
            | Inr idText \<Rightarrow>
                [(issueRequest w idText (case useCacheArg of None \<Rightarrow> True | Some f \<Rightarrow> f),
                  http w (network w)
                    (issueRequest w idText (case useCacheArg of None \<Rightarrow> True | Some f \<Rightarrow> f)))])"
    and "r = (case toString num of
                Inl e \<Rightarrow> Inr None
              | Inr idText \<Rightarrow>
                  (case http w (network w)
                          (issueRequest w idText (case useCacheArg of None \<Rightarrow> True | Some f \<Rightarrow> f)) of
                     Inl e \<Rightarrow> Inr None
                   | Inr resBody \<Rightarrow>
                       (case getProp resBody ''description'' of
                          Inl e \<Rightarrow> Inr None
                        | Inr d \<Rightarrow> Inr (Some (Issue num d)))))"
    and "\<exists>ys. logs w' = logs w @ ys"
    and "\<exists>ys. network w' = network w @ ys"
  using assms
  by (auto simp: getIssue_def Let_def getIssueTry_def getJson_def call_eq issueRequest_def
      sent_def split: sum.splits option.splits)

lemma getIssue_returns: "\<exists>x w'. getIssue num useCacheArg w = (Inr x, w')"
  by (auto simp: getIssue_def Let_def split: sum.splits prod.splits)

lemma findIssue_returns: "\<exists>x w'. findIssue t w = (Inr x, w')"
  by (auto simp: findIssue_def split: sum.splits prod.splits)

lemma findIssue_found:
  assumes fetched: "getIssueList (logger Debug NoContext (''findIssue('' @ t @ '')'') w) = (Inr issueList, w1)"
    and found: "find (\<lambda>i. strictEq (title i) (JStr t)) issueList = Some issue"
  shows "findIssue t w = getIssue (iid issue) None w1"
proof -
  from getIssue_returns obtain x w' where "getIssue (iid issue) None w1 = (Inr x, w')"
    by blast
  with fetched found show ?thesis
    by (simp add: findIssue_def findIssueTry_def)
qed

lemma findIssue_absent:
  assumes fetched: "getIssueList (logger Debug NoContext (''findIssue('' @ t @ '')'') w) = (Inr issueList, w1)"
    and absent: "\<forall>i\<in>set issueList. \<not> strictEq (title i) (JStr t)"
  shows "findIssue t w = (Inr None, w1)"
proof -
  from absent have "find (\<lambda>i. strictEq (title i) (JStr t)) issueList = None"
    by (simp add: find_None_iff)
  with fetched show ?thesis
    by (simp add: findIssue_def findIssueTry_def)
qed

lemma findIssue_sent:
  assumes run: "findIssue t w = (r, w')"
  shows "\<exists>rs. sent w w' = [(listRequest w, rs)]
            \<or> (\<exists>idText rs2. sent w w' = [(listRequest w, rs), (issueRequest w idText True, rs2)])"
proof (cases "getIssueList (logger Debug NoContext (''findIssue('' @ t @ '')'') w)")
  case (Pair r1 w1)
  note frame = getIssueList_world [OF Pair]
  from frame have same: "issueRequest w1 = issueRequest w"
    by (intro request_frames) simp_all
  show ?thesis
  proof (cases "\<exists>issueList issue. r1 = Inr issueList
      \<and> find (\<lambda>i. strictEq (title i) (JStr t)) issueList = Some issue")
    case True
    then obtain issueList issue where r1: "r1 = Inr issueList"
      and found: "find (\<lambda>i. strictEq (title i) (JStr t)) issueList = Some issue"
      by blast
    from findIssue_found [OF Pair [unfolded r1] found] run
    have get: "getIssue (iid issue) None w1 = (r, w')"
      by simp
    from sent_after_list [OF Pair getIssue_run(4) [OF get]] getIssue_run(1) [OF get]
    show ?thesis
      by (auto simp: same split: sum.splits)
  next
    case False
    with run Pair have "network w' = network w1"
      by (auto simp: findIssue_def findIssueTry_def split: sum.splits option.splits)
    with frame show ?thesis
      by (simp add: sent_def)
  qed
qed

lemma getProp_throws: "getProp v k = Inl e \<Longrightarrow> \<exists>m. e = TypeError m"
  by (cases v) auto

lemma ensureIssue_catch:
  assumes "ensureIssueTry t reuseTitle (sanitize b) (logger Debug NoContext ''ensureIssue()'' w) = (Inl e, v)"
    and "caughtMessage e = Inr m"
    and "ensureIssue sanitize t reuseTitle b w = (r, w')"
  shows "r = Inr None
       \<and> logged v w' =
           [if startsWith m ''Issues are disabled for this repo''
            then LogEntry Debug NoContext (''Could not create issue: '' @ m)
            else LogEntry Warn (Err e) ''Could not ensure issue'']"
  using assms by (auto simp: ensureIssue_def Let_def logged_def)

lemma findIssue_catch:
  assumes "findIssueTry t (logger Debug NoContext (''findIssue('' @ t @ '')'') w) = (Inl e, v)"
    and "findIssue t w = (r, w')"
  shows "r = Inr None \<and> logged v w' = [LogEntry Warn NoContext ''Error finding issue'']"
  using assms by (auto simp: findIssue_def logged_def)

lemma getIssue_catch:
  assumes "getIssueTry num (case useCacheArg of None \<Rightarrow> True | Some f \<Rightarrow> f) w = (Inl e, v)"
    and "getIssue num useCacheArg w = (r, w')"
  shows "r = Inr None \<and> logged v w' = [LogEntry Warn (ErrNumber e num) ''Error getting issue'']"
  using assms by (auto simp: getIssue_def Let_def logged_def)

lemma ensureIssueTry_logs:
  assumes "ensureIssueTry t reuseTitle d w = (r, w')"
  shows "\<exists>ys. logs w' = logs w @ ys"
proof (cases "getIssueList w")
  case (Pair r1 w1)
  from getIssueList_logs [OF Pair] obtain ys where "logs w1 = logs w @ ys"
    by blast
  with assms show ?thesis
    by (auto simp: ensureIssueTry_def Pair getJson_def putJson_def postJson_def call_eq
        split: sum.splits option.splits if_splits)
qed

text \<open>A throw of the client anywhere in the \<^verbatim>\<open>try\<close> block is the throw of the block.\<close>

lemma ensureIssueTry_transport:
  assumes run: "ensureIssueTry t reuseTitle d w = (r, w')"
    and thrown: "(rq, Inl e) \<in> set (sent w w')"
  shows "r = Inl e"
proof (cases "getIssueList w")
  case (Pair r1 w1)
  note frame = getIssueList_world [OF Pair]
  show ?thesis
  proof (cases r1)
    case (Inl e1)
    with run Pair have r: "r = Inl e1" and w': "w' = w1"
      by (simp_all add: ensureIssueTry_def)
    from thrown frame have "http w (network w) (listRequest w) = Inl e"
      by (simp add: sent_def w')
    from getIssueList_throw [OF this Pair] Inl r show ?thesis
      by simp
  next
    case (Inr issueList)
    with Pair have fetched: "getIssueList w = (Inr issueList, w1)"
      by simp
    from getIssueList_return [OF fetched] obtain resBody
      where ok: "http w (network w) (listRequest w) = Inr resBody"
      by auto
    show ?thesis
      using run thrown frame ok
      by (auto simp: ensureIssueTry_fetched [OF fetched] getJson_def putJson_def postJson_def
          call_eq sent_def split: sum.splits option.splits if_splits)
  qed
qed

text \<open>A throw of the \<^verbatim>\<open>try\<close> block is a throw of the client or a \<open>TypeError\<close> of the language.\<close>

lemma ensureIssueTry_origin:
  assumes run: "ensureIssueTry t reuseTitle d w = (Inl e, w')"
  shows "(\<exists>rq. (rq, Inl e) \<in> set (sent w w')) \<or> (\<exists>m. e = TypeError m)"
proof (cases "getIssueList w")
  case (Pair r1 w1)
  note frame = getIssueList_world [OF Pair]
  show ?thesis
  proof (cases r1)
    case (Inl e1)
    with run Pair have e: "e1 = e" and w': "w' = w1"
      by (simp_all add: ensureIssueTry_def)
    from getIssueList_origin [OF Pair [unfolded Inl e]] frame show ?thesis
      by (auto simp: sent_def w')
  next
    case (Inr issueList)
    with Pair have fetched: "getIssueList w = (Inr issueList, w1)"
      by simp
    show ?thesis
      using run frame
      by (auto simp: ensureIssueTry_fetched [OF fetched] getJson_def putJson_def postJson_def
          call_eq sent_def split: sum.splits option.splits if_splits
          dest: toString_throws getProp_throws)
  qed
qed

lemma TypeError_caught: "caughtMessage (TypeError m) = Inr m"
  by (simp add: caughtMessage_def)

lemma ensureIssue_returns:
  assumes run: "ensureIssue sanitize t reuseTitle b w = (r, w')"
    and messages: "\<forall>rq e. (rq, Inl e) \<in> set (sent w w') \<longrightarrow> (\<exists>m. caughtMessage e = Inr m)"
  shows "\<exists>x. r = Inr x"
proof (cases "ensureIssueTry t reuseTitle (sanitize b) (logger Debug NoContext ''ensureIssue()'' w)")
  case (Pair r1 v)
  note result = ensureIssue_result [OF Pair run]
  show ?thesis
  proof (cases r1)
    case (Inl e)
    from ensureIssueTry_origin [OF Pair [unfolded Inl]] result(2)
    have "(\<exists>rq. (rq, Inl e) \<in> set (sent w w')) \<or> (\<exists>m. e = TypeError m)"
      by (simp add: sent_def)
    with messages obtain m where "caughtMessage e = Inr m"
      by (auto simp: TypeError_caught)
    with result(1) Inl show ?thesis
      by simp
  next
    case (Inr x)
    with result(1) show ?thesis
      by simp
  qed
qed

lemma ensureIssue_transport:
  assumes run: "ensureIssue sanitize t reuseTitle b w = (r, w')"
    and thrown: "(rq, Inl e) \<in> set (sent w w')"
    and message: "caughtMessage e = Inr m"
  shows "r = Inr None
       \<and> (if startsWith m ''Issues are disabled for this repo''
           then LogEntry Debug NoContext (''Could not create issue: '' @ m)
           else LogEntry Warn (Err e) ''Could not ensure issue'') \<in> set (logged w w')"
proof (cases "ensureIssueTry t reuseTitle (sanitize b) (logger Debug NoContext ''ensureIssue()'' w)")
  case (Pair r1 v)
  note result = ensureIssue_result [OF Pair run]
  from thrown have "(rq, Inl e) \<in> set (sent (logger Debug NoContext ''ensureIssue()'' w) v)"
    by (simp add: sent_def result(2))
  from ensureIssueTry_transport [OF Pair this] have r1: "r1 = Inl e" .
  from ensureIssueTry_logs [OF Pair] obtain ys
    where ys: "logs v = logs w @ LogEntry Debug NoContext ''ensureIssue()'' # ys"
    by auto
  let ?entry = "if startsWith m ''Issues are disabled for this repo''
           then LogEntry Debug NoContext (''Could not create issue: '' @ m)
           else LogEntry Warn (Err e) ''Could not ensure issue''"
  from ensureIssue_catch [OF Pair [unfolded r1] message run]
  have r: "r = Inr None" and "logged v w' = [?entry]"
    by simp_all
  moreover from run have "\<exists>zs. logs w' = logs v @ zs"
    by (auto simp: ensureIssue_def Let_def Pair split: sum.splits if_splits)
  ultimately have "logs w' = logs v @ [?entry]"
    by (auto simp: logged_def)
  then have "logged w w' = LogEntry Debug NoContext ''ensureIssue()'' # ys @ [?entry]"
    by (simp add: logged_def ys)
  with r show ?thesis
    by simp
qed

lemma getIssue_transport:
  assumes run: "getIssue num useCacheArg w = (r, w')"
    and thrown: "(rq, Inl e) \<in> set (sent w w')"
  shows "r = Inr None \<and> LogEntry Warn (ErrNumber e num) ''Error getting issue'' \<in> set (logged w w')"
  using run thrown
  by (auto simp: getIssue_def Let_def getIssueTry_def getJson_def call_eq sent_def logged_def
      split: sum.splits option.splits)

lemma findIssue_transport:
  assumes run: "findIssue t w = (r, w')"
    and thrown: "(rq, Inl e) \<in> set (sent w w')"
  shows "r = Inr None
       \<and> (LogEntry Warn NoContext ''Error finding issue'' \<in> set (logged w w')
          \<or> (\<exists>num. LogEntry Warn (ErrNumber e num) ''Error getting issue'' \<in> set (logged w w')))"
proof (cases "getIssueList (logger Debug NoContext (''findIssue('' @ t @ '')'') w)")
  case (Pair r1 w1)
  note frame = getIssueList_world [OF Pair]
  from getIssueList_logs [OF Pair] obtain ys
    where ys: "logs w1 = logs w @ LogEntry Debug NoContext (''findIssue('' @ t @ '')'') # ys"
    by auto
  show ?thesis
  proof (cases r1)
    case (Inl e1)
    with run Pair have r: "r = Inr None"
      and w': "w' = logger Warn NoContext ''Error finding issue'' w1"
      by (simp_all add: findIssue_def findIssueTry_def)
    have "LogEntry Warn NoContext ''Error finding issue'' \<in> set (logged w w')"
      by (simp add: logged_def w' ys)
    with r show ?thesis
      by simp
  next
    case (Inr issueList)
    with Pair have fetched:
      "getIssueList (logger Debug NoContext (''findIssue('' @ t @ '')'') w) = (Inr issueList, w1)"
      by simp
    from getIssueList_return [OF fetched] obtain resBody
      where ok: "http w (network w) (listRequest w) = Inr resBody"
      by auto
    show ?thesis
    proof (cases "find (\<lambda>i. strictEq (title i) (JStr t)) issueList")
      case None
      with run fetched have "w' = w1"
        by (simp add: findIssue_def findIssueTry_def)
      with thrown frame ok show ?thesis
        by (simp add: sent_def)
    next
      case (Some issue)
      from findIssue_found [OF fetched Some] run
      have get: "getIssue (iid issue) None w1 = (r, w')"
        by simp
      from getIssue_run(3) [OF get] obtain zs where zs: "logs w' = logs w1 @ zs"
        by blast
      from sent_after_list [OF fetched getIssue_run(4) [OF get]] thrown ok
      have "(rq, Inl e) \<in> set (sent w1 w')"
        by simp
      from getIssue_transport [OF get this]
      have r: "r = Inr None"
        and "LogEntry Warn (ErrNumber e (iid issue)) ''Error getting issue'' \<in> set (logged w1 w')"
        by simp_all
      then have "LogEntry Warn (ErrNumber e (iid issue)) ''Error getting issue'' \<in> set (logged w w')"
        by (simp add: logged_def zs ys)
      with r show ?thesis
        by blast
    qed
  qed
qed

lemmas find_eval =
  findIssue_def findIssueTry_def getIssue_def getIssueTry_def Let_def getIssueList_def getJson_def
  call_eq project_def exampleWorld_def exampleConfig_def scripted_def
  issueObject_def descriptionObject_def

subsection \<open>ensureIssueClosing: throws and complete runs\<close>

text \<open>A close request that throws is the last exchange of the call, and its error is the result.\<close>

lemma ensureIssueClosing_throw:
  assumes fetched: "getIssueList (logger Debug NoContext ''ensureIssueClosing()'' w) = (Inr issueList, w1)"
    and run: "ensureIssueClosing t w = (r, w')"
    and thrown: "(rq, Inl e) \<in> set (sent w1 w')"
  shows "r = Inl e \<and> last (sent w1 w') = (rq, Inl e)"
proof -
  let ?M = "filter (\<lambda>i. strictEq (title i) (JStr t)) issueList"
  let ?xs = "sent w1 w'"
  from ensureIssueClosing_run [OF fetched run] obtain k ids0
    where k: "k \<le> length ?M"
      and ids0: "map (\<lambda>i. toString (iid i)) (take k ?M) = map Inr ids0"
      and reqs: "map fst ?xs = map (closeRequest w) ids0"
      and before: "\<forall>x\<in>set (butlast ?xs). \<exists>v. snd x = Inr v"
      and res: "case r of
          Inr u \<Rightarrow> k = length ?M \<and> (\<forall>x\<in>set ?xs. \<exists>v. snd x = Inr v)
        | Inl e \<Rightarrow>
            (?xs \<noteq> [] \<and> snd (last ?xs) = Inl e)
            \<or> (k < length ?M \<and> toString (iid (?M ! k)) = Inl e
               \<and> (\<forall>x\<in>set ?xs. \<exists>v. snd x = Inr v))"
    by blast
  from thrown have "?xs \<noteq> []"
    by auto
  with thrown have "(rq, Inl e) \<in> set (butlast ?xs @ [last ?xs])"
    by simp
  then have "(rq, Inl e) \<in> set (butlast ?xs) \<union> set [last ?xs]"
    by (simp only: set_append)
  then have "(rq, Inl e) \<in> set (butlast ?xs) \<or> last ?xs = (rq, Inl e)"
    by auto
  moreover have "(rq, Inl e) \<notin> set (butlast ?xs)"
  proof
    assume "(rq, Inl e) \<in> set (butlast ?xs)"
    with before obtain v where "snd (rq, (Inl e :: js_error + jsval)) = Inr v"
      by blast
    then show False
      by simp
  qed
  ultimately have last: "last ?xs = (rq, Inl e)"
    by blast
  have bad: "\<not> (\<forall>x\<in>set ?xs. \<exists>v. snd x = Inr v)"
  proof
    assume "\<forall>x\<in>set ?xs. \<exists>v. snd x = Inr v"
    with thrown obtain v where "snd (rq, (Inl e :: js_error + jsval)) = Inr v"
      by blast
    then show False
      by simp
  qed
  have "r = Inl e"
  proof (cases r)
    case (Inl e')
    with res bad have "snd (last ?xs) = Inl e'"
      by simp
    with last Inl show ?thesis
      by simp
  next
    case (Inr u)
    with res bad show ?thesis
      by simp
  qed
  with last show ?thesis
    by simp
qed

lemma ensureIssueClosing_throw_last:
  assumes fetched: "getIssueList (logger Debug NoContext ''ensureIssueClosing()'' w) = (Inr issueList, w1)"
    and run: "ensureIssueClosing t w = (r, w')"
    and j: "j < length (sent w1 w')"
    and thrown: "snd (sent w1 w' ! j) = Inl e"
  shows "Suc j = length (sent w1 w') \<and> r = Inl e"
proof -
  let ?xs = "sent w1 w'"
  from ensureIssueClosing_run [OF fetched run]
  have before: "\<forall>x\<in>set (butlast ?xs). \<exists>v. snd x = Inr v"
    by blast
  have "\<not> j < length (butlast ?xs)"
  proof
    assume less: "j < length (butlast ?xs)"
    then have "butlast ?xs ! j \<in> set (butlast ?xs)"
      by simp
    with before obtain v where "snd (butlast ?xs ! j) = Inr v"
      by blast
    with less thrown show False
      by (simp add: nth_butlast)
  qed
  with j have len: "Suc j = length ?xs"
    by simp
  from j thrown have "(fst (?xs ! j), Inl e) \<in> set ?xs"
    by (metis nth_mem prod.collapse)
  from ensureIssueClosing_throw [OF fetched run this] len show ?thesis
    by simp
qed

text \<open>
  When the \<^verbatim>\<open>iid\<close> of every issue with the title converts to a string and every close
  request returns, the call returns and every such issue has received its request.
\<close>

lemma ensureIssueClosing_complete:
  assumes fetched: "getIssueList (logger Debug NoContext ''ensureIssueClosing()'' w) = (Inr issueList, w1)"
    and run: "ensureIssueClosing t w = (r, w')"
    and renders: "map (\<lambda>i. toString (iid i)) (filter (\<lambda>i. strictEq (title i) (JStr t)) issueList)
        = map Inr ids"
    and ok: "\<forall>x\<in>set (sent w1 w'). \<exists>v. snd x = Inr v"
  shows "r = Inr () \<and> map fst (sent w1 w') = map (closeRequest w) ids"
proof -
  let ?M = "filter (\<lambda>i. strictEq (title i) (JStr t)) issueList"
  let ?xs = "sent w1 w'"
  from ensureIssueClosing_run [OF fetched run] obtain k ids0
    where k: "k \<le> length ?M"
      and ids0: "map (\<lambda>i. toString (iid i)) (take k ?M) = map Inr ids0"
      and reqs: "map fst ?xs = map (closeRequest w) ids0"
      and res: "case r of
          Inr u \<Rightarrow> k = length ?M \<and> (\<forall>x\<in>set ?xs. \<exists>v. snd x = Inr v)
        | Inl e \<Rightarrow>
            (?xs \<noteq> [] \<and> snd (last ?xs) = Inl e)
            \<or> (k < length ?M \<and> toString (iid (?M ! k)) = Inl e
               \<and> (\<forall>x\<in>set ?xs. \<exists>v. snd x = Inr v))"
    by blast
  from renders have len: "length ids = length ?M"
    by (metis length_map)
  show ?thesis
  proof (cases r)
    case (Inl e)
    have "\<not> (?xs \<noteq> [] \<and> snd (last ?xs) = Inl e)"
    proof
      assume bad: "?xs \<noteq> [] \<and> snd (last ?xs) = Inl e"
      then have "last ?xs \<in> set ?xs"
        by simp
      with ok obtain v where "snd (last ?xs) = Inr v"
        by blast
      with bad show False
        by simp
    qed
    with res Inl have less: "k < length ?M" and fails: "toString (iid (?M ! k)) = Inl e"
      by simp_all
    from less have "map (\<lambda>i. toString (iid i)) ?M ! k = toString (iid (?M ! k))"
      by simp
    moreover from less len have "map Inr ids ! k = (Inr (ids ! k) :: js_error + string)"
      by simp
    ultimately show ?thesis
      using renders fails by simp
  next
    case (Inr u)
    with res have "k = length ?M"
      by simp
    with ids0 renders have "map Inr ids0 = (map Inr ids :: (js_error + string) list)"
      by simp
    then have "ids0 = ids"
      by (simp add: inj_map_eq_map)
    with reqs Inr show ?thesis
      by simp
  qed
qed

section \<open>The list fetch on a malformed response\<close>

text \<open>
  Claim C1, amended. When the body of the list response is not an array,
  \<^verbatim>\<open>getIssueList\<close> returns the empty sequence and logs one warning, and the cached issue
  list is what it was before the call: line 39 returns before the assignment of line 41.
\<close>

theorem getIssueList_not_array:
  assumes "http w (network w) (listRequest w) = Inr resBody"
    and "\<not> is_array resBody"
  shows "fst (getIssueList w) = Inr []
       \<and> logged w (snd (getIssueList w)) =
           [LogEntry Warn (ResponseBody resBody) ''Could not retrieve issue list'']
       \<and> issueListCache (snd (getIssueList w)) = issueListCache w"
  using assms
  by (simp add: getIssueList_def getJson_def call_eq listRequest_def logged_def)

text \<open>The cache holds one issue, the tracker answers \<^verbatim>\<open>null\<close>: the issue stays in the cache.\<close>

theorem getIssueList_not_array_witness:
  "\<not> is_array JNull
   \<and> fst (getIssueList (exampleWorld (scripted [Inr JNull])
             [SelfHostIssue (JNum ''1'') (JStr ''Dashboard'')])) = Inr []
   \<and> issueListCache (snd (getIssueList (exampleWorld (scripted [Inr JNull])
             [SelfHostIssue (JNum ''1'') (JStr ''Dashboard'')])))
      = [SelfHostIssue (JNum ''1'') (JStr ''Dashboard'')]"
proof -
  let ?W = "exampleWorld (scripted [Inr JNull]) [SelfHostIssue (JNum ''1'') (JStr ''Dashboard'')]"
  have answer: "http ?W (network ?W) (listRequest ?W) = Inr JNull"
    by (simp add: exampleWorld_def scripted_def)
  have no_array: "\<not> is_array JNull"
    by simp
  from getIssueList_not_array [OF answer no_array] show ?thesis
    by (simp add: exampleWorld_def)
qed

text \<open>
  Claim C1 as stated says that the cache is the empty sequence after such a call. In the
  same run the response body is \<^verbatim>\<open>null\<close>, which is no array, and the cache is not empty
  afterwards.
\<close>

theorem getIssueList_cache_counterexample:
  "http (exampleWorld (scripted [Inr JNull]) [SelfHostIssue (JNum ''1'') (JStr ''Dashboard'')]) []
     (listRequest (exampleWorld (scripted [Inr JNull])
        [SelfHostIssue (JNum ''1'') (JStr ''Dashboard'')])) = Inr JNull
   \<and> \<not> is_array JNull
   \<and> issueListCache (snd (getIssueList (exampleWorld (scripted [Inr JNull])
        [SelfHostIssue (JNum ''1'') (JStr ''Dashboard'')]))) \<noteq> []"
  by (simp add: getIssueList_def getJson_def call_eq exampleWorld_def scripted_def)

section \<open>ensureIssue: creating\<close>

text \<open>
  Claim C2, amended. When the list fetched by this call holds no issue whose title is the
  requested title and none whose title is the reuse title, \<^verbatim>\<open>ensureIssue\<close> sends exactly
  one create request, carrying the title and the sanitized body, and no update request.
  It returns \<^verbatim>\<open>'created'\<close> when that request returns. When the request throws, the
  \<^verbatim>\<open>catch\<close> of line 89 decides: for an error that carries a message string, as every
  error object does, the result is \<^verbatim>\<open>null\<close>; for a thrown value without one, line 90
  throws its own \<open>TypeError\<close>.
\<close>

theorem ensureIssue_creates:
  assumes fetched: "getIssueList (logger Debug NoContext ''ensureIssue()'' w) = (Inr issueList, w1)"
    and no_title: "\<forall>i\<in>set issueList. \<not> strictEq (title i) (JStr t)"
    and no_reuse: "\<forall>i\<in>set issueList. \<not> strictEq (title i) (optionalString reuseTitle)"
    and run: "ensureIssue sanitize t reuseTitle b w = (r, w')"
  shows "(\<exists>rs. sent w1 w' = [(createRequest w t (sanitize b), rs)]
               \<and> r = (case rs of
                        Inl e \<Rightarrow>
                          (case caughtMessage e of Inl e' \<Rightarrow> Inl e' | Inr m \<Rightarrow> Inr None)
                      | Inr v \<Rightarrow> Inr (Some Created)))
       \<and> requests POST (sent w w') = [createRequest w t (sanitize b)]
       \<and> requests PUT (sent w w') = []"
proof -
  note look = lookupIssue_None [OF no_title no_reuse]
  note frame = getIssueList_world [OF fetched]
  let ?rq = "createRequest w t (sanitize b)"
  let ?rs = "http w (network w1) ?rq"
  obtain r2 v
    where body: "ensureIssueTry t reuseTitle (sanitize b) (logger Debug NoContext ''ensureIssue()'' w)
      = (r2, v)"
    by (cases "ensureIssueTry t reuseTitle (sanitize b) (logger Debug NoContext ''ensureIssue()'' w)")
  have "network v = network w1 @ [(?rq, ?rs)]"
    and "r2 = (case ?rs of Inl e \<Rightarrow> Inl e | Inr y \<Rightarrow> Inr (Some Created))"
    using body frame
    by (auto simp: ensureIssueTry_fetched [OF fetched] look postJson_def call_eq createRequest_def
        split: sum.splits)
  with ensureIssue_result [OF body run]
  have net: "network w' = network w1 @ [(?rq, ?rs)]"
    and res: "r = (case ?rs of
                     Inl e \<Rightarrow> (case caughtMessage e of Inl e' \<Rightarrow> Inl e' | Inr m \<Rightarrow> Inr None)
                   | Inr v \<Rightarrow> Inr (Some Created))"
    by (auto split: sum.splits)
  have first: "sent w1 w' = [(?rq, ?rs)]"
    by (simp add: sent_def net)
  have all: "sent w w' = [(listRequest w, http w (network w) (listRequest w)), (?rq, ?rs)]"
    using frame by (simp add: sent_def net)
  have "requests POST (sent w w') = [?rq]" "requests PUT (sent w w') = []"
    by (simp_all add: all requests_def listRequest_def createRequest_def)
  with first res show ?thesis
    by blast
qed

text \<open>
  The tracker lists one issue with another title and accepts the create request: the
  result is \<^verbatim>\<open>'created'\<close> and the one \<open>POST\<close> carries the sanitized body.
\<close>

theorem ensureIssue_creates_witness:
  "fst (ensureIssue exampleSanitize ''Dashboard'' (Some ''Old board'') ''B!''
         (exampleWorld (scripted [Inr (JArr [issueObject ''7'' ''Other'']), Inr JNull]) []))
     = Inr (Some Created)
   \<and> requests POST
        (sent (exampleWorld (scripted [Inr (JArr [issueObject ''7'' ''Other'']), Inr JNull]) [])
           (snd (ensureIssue exampleSanitize ''Dashboard'' (Some ''Old board'') ''B!''
              (exampleWorld (scripted [Inr (JArr [issueObject ''7'' ''Other'']), Inr JNull]) []))))
     = [createRequest (exampleWorld (scripted [Inr (JArr [issueObject ''7'' ''Other'']), Inr JNull]) [])
          ''Dashboard'' ''B'']"
proof -
  let ?W = "exampleWorld (scripted [Inr (JArr [issueObject ''7'' ''Other'']), Inr JNull]) []"
  let ?L = "[SelfHostIssue (JNum ''7'') (JStr ''Other'')]"
  let ?run = "ensureIssue exampleSanitize ''Dashboard'' (Some ''Old board'') ''B!'' ?W"
  have "fst (getIssueList (logger Debug NoContext ''ensureIssue()'' ?W)) = Inr ?L"
    by (simp add: getIssueList_def getJson_def call_eq exampleWorld_def scripted_def
        issueObject_def project_def)
  then have fetched: "getIssueList (logger Debug NoContext ''ensureIssue()'' ?W)
      = (Inr ?L, snd (getIssueList (logger Debug NoContext ''ensureIssue()'' ?W)))"
    by (simp add: prod_eq_iff)
  have no_title: "\<forall>i\<in>set ?L. \<not> strictEq (title i) (JStr ''Dashboard'')"
    by simp
  have no_reuse: "\<forall>i\<in>set ?L. \<not> strictEq (title i) (optionalString (Some ''Old board''))"
    by simp
  have run: "?run = (fst ?run, snd ?run)"
    by simp
  have san: "exampleSanitize ''B!'' = ''B''"
    by (simp add: exampleSanitize_def)
  have created: "fst ?run = Inr (Some Created)"
    by (simp add: eval_defs)
  from ensureIssue_creates [OF fetched no_title no_reuse run]
  have "requests POST (sent ?W (snd ?run)) = [createRequest ?W ''Dashboard'' (exampleSanitize ''B!'')]"
    by (rule conjunct1 [OF conjunct2])
  with san created show ?thesis
    by (simp only: simp_thms)
qed

text \<open>
  Claim C2 as stated says that the call returns \<^verbatim>\<open>'created'\<close>. Here the fetched list is
  empty, so no title matches, the create request throws, and the call returns \<^verbatim>\<open>null\<close>.
\<close>

theorem ensureIssue_creates_counterexample:
  "fst (getIssueList (logger Debug NoContext ''ensureIssue()''
          (exampleWorld (scripted [Inr (JArr []), Inl (Error ''502 Bad Gateway'')]) []))) = Inr []
   \<and> fst (ensureIssue exampleSanitize ''Dashboard'' None ''B!''
          (exampleWorld (scripted [Inr (JArr []), Inl (Error ''502 Bad Gateway'')]) [])) = Inr None"
  by (simp add: eval_defs)

section \<open>ensureIssue: nothing to do\<close>

text \<open>
  Claim C3, amended. \<^verbatim>\<open>find\<close> selects the first issue of the fetched list whose title is
  the requested title. When the description stored for that issue, fetched under its
  \<^verbatim>\<open>iid\<close>, is the sanitized requested body, \<^verbatim>\<open>ensureIssue\<close> returns \<^verbatim>\<open>null\<close> and sends no
  \<open>PUT\<close> and no \<open>POST\<close>.
  Consequently, when an earlier call with the same arguments returned \<^verbatim>\<open>'created'\<close> and
  led to the world this call starts from, the two calls together have sent one mutation,
  the create request of the first.
\<close>

theorem ensureIssue_unchanged:
  assumes fetched: "getIssueList (logger Debug NoContext ''ensureIssue()'' w) = (Inr issueList, w1)"
    and found: "find (\<lambda>i. strictEq (title i) (JStr t)) issueList = Some issue"
    and renders: "toString (iid issue) = Inr idText"
    and stored: "http w (network w1) (descriptionRequest w idText) = Inr resBody"
    and same: "getProp resBody ''description'' = Inr (JStr (sanitize b))"
    and run: "ensureIssue sanitize t reuseTitle b w = (r, w')"
  shows "r = Inr None \<and> mutations (sent w w') = []
       \<and> (\<forall>w0. ensureIssue sanitize t reuseTitle b w0 = (Inr (Some Created), w) \<longrightarrow>
             mutations (sent w0 w') = [createRequest w0 t (sanitize b)])"
proof -
  have look: "lookupIssue t reuseTitle issueList = Some issue"
    by (simp add: lookupIssue_def found)
  have match: "strictEq (title issue) (JStr t)"
    using find_SomeD [OF found] by simp
  from ensureIssue_found [OF fetched look renders run] stored same match
  have after: "sent w1 w' = [(descriptionRequest w idText, Inr resBody)]"
    and res: "r = Inr None"
    by simp_all
  from sent_after_list [OF fetched ensureIssue_after_list [OF fetched run]] after
  have all: "sent w w' = [(listRequest w, http w (network w) (listRequest w)),
                          (descriptionRequest w idText, Inr resBody)]"
    by simp
  have quiet: "mutations (sent w w') = []"
    by (simp add: all mutations_def listRequest_def descriptionRequest_def)
  have "mutations (sent w0 w') = [createRequest w0 t (sanitize b)]"
    if first: "ensureIssue sanitize t reuseTitle b w0 = (Inr (Some Created), w)" for w0
  proof -
    from ensureIssue_world [OF first] obtain xs where xs: "network w = network w0 @ xs"
      by blast
    from ensureIssue_world [OF run] obtain ys where ys: "network w' = network w @ ys"
      by blast
    have "sent w0 w' = sent w0 w @ sent w w'"
      using xs ys by (rule sent_append)
    then show ?thesis
      by (simp add: quiet ensureIssue_Created [OF first])
  qed
  with res quiet show ?thesis
    by blast
qed

text \<open>
  A round trip: the tracker lists nothing, accepts the create request, and then lists
  the new issue with the sanitized body as its description.
\<close>

theorem ensureIssue_unchanged_witness:
  "fst (ensureIssue exampleSanitize ''Dashboard'' None ''B!''
         (exampleWorld (scripted [Inr (JArr []), Inr JNull,
            Inr (JArr [issueObject ''1'' ''Dashboard'']), Inr (descriptionObject ''B'')]) []))
     = Inr (Some Created)
   \<and> fst (ensureIssue exampleSanitize ''Dashboard'' None ''B!''
         (snd (ensureIssue exampleSanitize ''Dashboard'' None ''B!''
           (exampleWorld (scripted [Inr (JArr []), Inr JNull,
              Inr (JArr [issueObject ''1'' ''Dashboard'']), Inr (descriptionObject ''B'')]) []))))
     = Inr None
   \<and> mutations (sent
         (exampleWorld (scripted [Inr (JArr []), Inr JNull,
            Inr (JArr [issueObject ''1'' ''Dashboard'']), Inr (descriptionObject ''B'')]) [])
         (snd (ensureIssue exampleSanitize ''Dashboard'' None ''B!''
           (snd (ensureIssue exampleSanitize ''Dashboard'' None ''B!''
             (exampleWorld (scripted [Inr (JArr []), Inr JNull,
                Inr (JArr [issueObject ''1'' ''Dashboard'']), Inr (descriptionObject ''B'')]) []))))))
     = [createRequest
         (exampleWorld (scripted [Inr (JArr []), Inr JNull,
            Inr (JArr [issueObject ''1'' ''Dashboard'']), Inr (descriptionObject ''B'')]) [])
         ''Dashboard'' ''B'']"
proof -
  let ?W0 = "exampleWorld (scripted [Inr (JArr []), Inr JNull,
            Inr (JArr [issueObject ''1'' ''Dashboard'']), Inr (descriptionObject ''B'')]) []"
  let ?first = "ensureIssue exampleSanitize ''Dashboard'' None ''B!'' ?W0"
  let ?issue = "SelfHostIssue (JNum ''1'') (JStr ''Dashboard'')"
  define W where "W = snd ?first"
  let ?second = "ensureIssue exampleSanitize ''Dashboard'' None ''B!'' W"
  let ?fetch = "getIssueList (logger Debug NoContext ''ensureIssue()'' W)"
  have created: "fst ?first = Inr (Some Created)"
    by (simp add: eval_defs)
  then have first: "?first = (Inr (Some Created), W)"
    by (simp add: prod_eq_iff W_def)
  have fields: "length (network W) = 2" "http W = http ?W0" "repository W = ''org/repo''"
    "renovateConfig W = exampleConfig"
    unfolding W_def by (simp_all add: eval_defs)
  have "fst ?fetch = Inr [?issue]"
    by (simp add: getIssueList_def getJson_def call_eq project_def fields exampleWorld_def
        scripted_def issueObject_def)
  then have fetched: "?fetch = (Inr [?issue], snd ?fetch)"
    by (simp add: prod_eq_iff)
  have found: "find (\<lambda>i. strictEq (title i) (JStr ''Dashboard'')) [?issue] = Some ?issue"
    by simp
  have renders: "toString (iid ?issue) = Inr ''1''"
    by simp
  have stored: "http W (network (snd ?fetch)) (descriptionRequest W ''1'')
      = Inr (descriptionObject ''B'')"
    by (simp add: getIssueList_def getJson_def call_eq project_def fields exampleWorld_def
        scripted_def issueObject_def)
  have same: "getProp (descriptionObject ''B'') ''description'' = Inr (JStr (exampleSanitize ''B!''))"
    by (simp add: descriptionObject_def exampleSanitize_def)
  have run: "?second = (fst ?second, snd ?second)"
    by simp
  have san: "exampleSanitize ''B!'' = ''B''"
    by (simp add: exampleSanitize_def)
  from ensureIssue_unchanged [OF fetched found renders stored same run] first
  have "fst ?second = Inr None"
    and "mutations (sent ?W0 (snd ?second)) = [createRequest ?W0 ''Dashboard'' (exampleSanitize ''B!'')]"
    by blast+
  with created san show ?thesis
    unfolding W_def by (simp only: simp_thms)
qed

text \<open>
  Claim C3 as stated asks only for some issue in the list with the title and the stored
  description. Here the list holds two issues titled \<^verbatim>\<open>Dashboard\<close>; the second has the
  sanitized body as its description, the first has not. The call reads the first and
  updates it.
\<close>

theorem ensureIssue_unchanged_counterexample:
  "fst (getIssueList (logger Debug NoContext ''ensureIssue()'' (exampleWorld twoDashboards [])))
     = Inr [SelfHostIssue (JNum ''1'') (JStr ''Dashboard''), SelfHostIssue (JNum ''2'') (JStr ''Dashboard'')]
   \<and> strictEq (title (SelfHostIssue (JNum ''2'') (JStr ''Dashboard''))) (JStr ''Dashboard'')
   \<and> toString (iid (SelfHostIssue (JNum ''2'') (JStr ''Dashboard''))) = Inr ''2''
   \<and> http (exampleWorld twoDashboards [])
        (network (snd (getIssueList (logger Debug NoContext ''ensureIssue()''
           (exampleWorld twoDashboards [])))))
        (descriptionRequest (exampleWorld twoDashboards []) ''2'')
     = Inr (descriptionObject ''B'')
   \<and> getProp (descriptionObject ''B'') ''description'' = Inr (JStr (exampleSanitize ''B!''))
   \<and> fst (ensureIssue exampleSanitize ''Dashboard'' None ''B!'' (exampleWorld twoDashboards []))
     = Inr (Some Updated)
   \<and> mutations (sent (exampleWorld twoDashboards [])
        (snd (ensureIssue exampleSanitize ''Dashboard'' None ''B!'' (exampleWorld twoDashboards []))))
     = [updateRequest (exampleWorld twoDashboards []) ''1'' ''Dashboard'' ''B'']"
  by (simp add: eval_defs twoDashboards_def descriptionRequest_def updateRequest_def sent_def
      mutations_def)

section \<open>ensureIssue: updating\<close>

text \<open>
  Claim C4, amended. When an issue is found (by title or by reuse title), the fetch of its
  description under its \<^verbatim>\<open>iid\<close> returns one, and the title of the found issue differs
  from the requested title or the fetched description differs from the sanitized
  requested body, then \<^verbatim>\<open>ensureIssue\<close> sends exactly one update request, carrying the
  requested title and the sanitized body, and no create request. It returns
  \<^verbatim>\<open>'updated'\<close> when that request returns. When the request throws, the \<^verbatim>\<open>catch\<close> of
  line 89 decides: for an error that carries a message string, as every error object
  does, the result is \<^verbatim>\<open>null\<close>; for a thrown value without one, line 90 throws its own
  \<open>TypeError\<close>.
\<close>

theorem ensureIssue_updates:
  assumes fetched: "getIssueList (logger Debug NoContext ''ensureIssue()'' w) = (Inr issueList, w1)"
    and found: "lookupIssue t reuseTitle issueList = Some issue"
    and renders: "toString (iid issue) = Inr idText"
    and stored: "http w (network w1) (descriptionRequest w idText) = Inr resBody"
    and descr: "getProp resBody ''description'' = Inr existingDescription"
    and differs: "\<not> strictEq (title issue) (JStr t)
                  \<or> \<not> strictEq existingDescription (JStr (sanitize b))"
    and run: "ensureIssue sanitize t reuseTitle b w = (r, w')"
  shows "(\<exists>rs. sent w1 w' = [(descriptionRequest w idText, Inr resBody),
                              (updateRequest w idText t (sanitize b), rs)]
               \<and> r = (case rs of
                        Inl e \<Rightarrow>
                          (case caughtMessage e of Inl e' \<Rightarrow> Inl e' | Inr m \<Rightarrow> Inr None)
                      | Inr v \<Rightarrow> Inr (Some Updated)))
       \<and> requests PUT (sent w w') = [updateRequest w idText t (sanitize b)]
       \<and> requests POST (sent w w') = []"
proof -
  let ?rs = "http w (network w1 @ [(descriptionRequest w idText, Inr resBody)])
               (updateRequest w idText t (sanitize b))"
  have after: "sent w1 w' = [(descriptionRequest w idText, Inr resBody),
                             (updateRequest w idText t (sanitize b), ?rs)]"
    using ensureIssue_found(1) [OF fetched found renders run] stored descr differs by auto
  have res: "r = (case ?rs of
                    Inl e \<Rightarrow> (case caughtMessage e of Inl e' \<Rightarrow> Inl e' | Inr m \<Rightarrow> Inr None)
                  | Inr v \<Rightarrow> Inr (Some Updated))"
    using ensureIssue_found(2) [OF fetched found renders run] stored descr differs by auto
  from sent_after_list [OF fetched ensureIssue_after_list [OF fetched run]]
  have "sent w w' = (listRequest w, http w (network w) (listRequest w)) # sent w1 w'" .
  then have "requests PUT (sent w w') = [updateRequest w idText t (sanitize b)]"
    and "requests POST (sent w w') = []"
    by (simp_all add: after requests_def listRequest_def descriptionRequest_def updateRequest_def)
  with after res show ?thesis
    by blast
qed

text \<open>The stored description is an older text: one \<open>PUT\<close> with the new one, result \<^verbatim>\<open>'updated'\<close>.\<close>

theorem ensureIssue_updates_witness:
  "fst (ensureIssue exampleSanitize ''Dashboard'' None ''B!''
         (exampleWorld (scripted [Inr (JArr [issueObject ''1'' ''Dashboard'']),
            Inr (descriptionObject ''old text''), Inr JNull]) []))
     = Inr (Some Updated)
   \<and> requests PUT
        (sent (exampleWorld (scripted [Inr (JArr [issueObject ''1'' ''Dashboard'']),
                 Inr (descriptionObject ''old text''), Inr JNull]) [])
           (snd (ensureIssue exampleSanitize ''Dashboard'' None ''B!''
              (exampleWorld (scripted [Inr (JArr [issueObject ''1'' ''Dashboard'']),
                 Inr (descriptionObject ''old text''), Inr JNull]) []))))
     = [updateRequest
          (exampleWorld (scripted [Inr (JArr [issueObject ''1'' ''Dashboard'']),
             Inr (descriptionObject ''old text''), Inr JNull]) [])
          ''1'' ''Dashboard'' ''B'']"
proof -
  let ?W = "exampleWorld (scripted [Inr (JArr [issueObject ''1'' ''Dashboard'']),
            Inr (descriptionObject ''old text''), Inr JNull]) []"
  let ?issue = "SelfHostIssue (JNum ''1'') (JStr ''Dashboard'')"
  let ?run = "ensureIssue exampleSanitize ''Dashboard'' None ''B!'' ?W"
  let ?fetch = "getIssueList (logger Debug NoContext ''ensureIssue()'' ?W)"
  have "fst ?fetch = Inr [?issue]"
    by (simp add: list_eval)
  then have fetched: "?fetch = (Inr [?issue], snd ?fetch)"
    by (simp add: prod_eq_iff)
  have found: "lookupIssue ''Dashboard'' None [?issue] = Some ?issue"
    by (simp add: lookupIssue_def)
  have renders: "toString (iid ?issue) = Inr ''1''"
    by simp
  have stored: "http ?W (network (snd ?fetch)) (descriptionRequest ?W ''1'')
      = Inr (descriptionObject ''old text'')"
    by (simp add: list_eval)
  have descr: "getProp (descriptionObject ''old text'') ''description'' = Inr (JStr ''old text'')"
    by (simp add: descriptionObject_def)
  have differs: "\<not> strictEq (title ?issue) (JStr ''Dashboard'')
      \<or> \<not> strictEq (JStr ''old text'') (JStr (exampleSanitize ''B!''))"
    by (simp add: exampleSanitize_def)
  have run: "?run = (fst ?run, snd ?run)"
    by simp
  have san: "exampleSanitize ''B!'' = ''B''"
    by (simp add: exampleSanitize_def)
  have updated: "fst ?run = Inr (Some Updated)"
    by (simp add: eval_defs)
  from ensureIssue_updates [OF fetched found renders stored descr differs run]
  have "requests PUT (sent ?W (snd ?run))
      = [updateRequest ?W ''1'' ''Dashboard'' (exampleSanitize ''B!'')]"
    by (rule conjunct1 [OF conjunct2])
  with san updated show ?thesis
    by (simp only: simp_thms)
qed

text \<open>
  Claim C4 as stated fails in two ways. In the first run the issue is found by its reuse
  title, so its title differs from the requested one, but the fetch of its description
  throws: no update request is sent and the result is \<^verbatim>\<open>null\<close>. In the second run the
  stored description differs and the update request is sent, but it throws: the result
  is \<^verbatim>\<open>null\<close>, not \<^verbatim>\<open>'updated'\<close>.
\<close>

theorem ensureIssue_updates_counterexample:
  "lookupIssue ''Dashboard'' (Some ''Old board'') [SelfHostIssue (JNum ''1'') (JStr ''Old board'')]
     = Some (SelfHostIssue (JNum ''1'') (JStr ''Old board''))
   \<and> \<not> strictEq (title (SelfHostIssue (JNum ''1'') (JStr ''Old board''))) (JStr ''Dashboard'')
   \<and> fst (getIssueList (logger Debug NoContext ''ensureIssue()''
        (exampleWorld (scripted [Inr (JArr [issueObject ''1'' ''Old board'']),
           Inl (Error ''socket hang up'')]) [])))
     = Inr [SelfHostIssue (JNum ''1'') (JStr ''Old board'')]
   \<and> fst (ensureIssue exampleSanitize ''Dashboard'' (Some ''Old board'') ''B!''
        (exampleWorld (scripted [Inr (JArr [issueObject ''1'' ''Old board'']),
           Inl (Error ''socket hang up'')]) []))
     = Inr None
   \<and> requests PUT (sent
        (exampleWorld (scripted [Inr (JArr [issueObject ''1'' ''Old board'']),
           Inl (Error ''socket hang up'')]) [])
        (snd (ensureIssue exampleSanitize ''Dashboard'' (Some ''Old board'') ''B!''
          (exampleWorld (scripted [Inr (JArr [issueObject ''1'' ''Old board'']),
             Inl (Error ''socket hang up'')]) []))))
     = []
   \<and> fst (ensureIssue exampleSanitize ''Dashboard'' None ''B!''
        (exampleWorld (scripted [Inr (JArr [issueObject ''1'' ''Dashboard'']),
           Inr (descriptionObject ''old text''), Inl (Error ''502 Bad Gateway'')]) []))
     = Inr None
   \<and> requests PUT (sent
        (exampleWorld (scripted [Inr (JArr [issueObject ''1'' ''Dashboard'']),
           Inr (descriptionObject ''old text''), Inl (Error ''502 Bad Gateway'')]) [])
        (snd (ensureIssue exampleSanitize ''Dashboard'' None ''B!''
          (exampleWorld (scripted [Inr (JArr [issueObject ''1'' ''Dashboard'']),
             Inr (descriptionObject ''old text''), Inl (Error ''502 Bad Gateway'')]) []))))
     = [updateRequest
          (exampleWorld (scripted [Inr (JArr [issueObject ''1'' ''Dashboard'']),
             Inr (descriptionObject ''old text''), Inl (Error ''502 Bad Gateway'')]) [])
          ''1'' ''Dashboard'' ''B'']"
  by (simp add: eval_defs updateRequest_def sent_def requests_def)

section \<open>ensureIssue: the reuse title\<close>

text \<open>
  Claim C5. When the fetched list holds no issue with the requested title but one with
  the reuse title, \<^verbatim>\<open>ensureIssue\<close> takes the found-issue branch with the first such issue:
  after the list fetch it reads that issue's description, any further request is the
  update of that issue (sent whenever a description could be read, since the title
  differs), and no create request is ever sent. When an issue with the requested title
  is present, the first such issue is the one read, wherever the reuse title occurs.
  The branch is taken also for an issue whose \<^verbatim>\<open>iid\<close> cannot be written into the URL:
  then the branch sends nothing, and still nothing is created.
\<close>

theorem ensureIssue_reuseTitle:
  assumes fetched: "getIssueList (logger Debug NoContext ''ensureIssue()'' w) = (Inr issueList, w1)"
    and run: "ensureIssue sanitize t reuseTitle b w = (r, w')"
  shows "((\<forall>i\<in>set issueList. \<not> strictEq (title i) (JStr t))
          \<and> (\<exists>i\<in>set issueList. strictEq (title i) (optionalString reuseTitle))
          \<longrightarrow> (\<exists>issue.
                 find (\<lambda>i. strictEq (title i) (optionalString reuseTitle)) issueList = Some issue
               \<and> requests POST (sent w w') = []
               \<and> (case toString (iid issue) of
                    Inl e \<Rightarrow> sent w1 w' = []
                  | Inr idText \<Rightarrow>
                      (\<exists>rest.
                          sent w1 w' =
                            (descriptionRequest w idText,
                             http w (network w1) (descriptionRequest w idText)) # rest
                        \<and> (rest = [] \<or> (\<exists>rs. rest = [(updateRequest w idText t (sanitize b), rs)]))
                        \<and> ((\<exists>resBody d. http w (network w1) (descriptionRequest w idText) = Inr resBody
                                \<and> getProp resBody ''description'' = Inr d) \<longrightarrow> rest \<noteq> [])))))
       \<and> (\<forall>issue. find (\<lambda>i. strictEq (title i) (JStr t)) issueList = Some issue
            \<longrightarrow> requests POST (sent w w') = []
              \<and> (case toString (iid issue) of
                   Inl e \<Rightarrow> sent w1 w' = []
                 | Inr idText \<Rightarrow>
                     (\<exists>rest.
                         sent w1 w' =
                           (descriptionRequest w idText,
                            http w (network w1) (descriptionRequest w idText)) # rest
                       \<and> (rest = [] \<or> (\<exists>rs. rest = [(updateRequest w idText t (sanitize b), rs)])))))"
proof (intro conjI impI allI)
  assume hyp: "(\<forall>i\<in>set issueList. \<not> strictEq (title i) (JStr t))
          \<and> (\<exists>i\<in>set issueList. strictEq (title i) (optionalString reuseTitle))"
  then have none: "find (\<lambda>i. strictEq (title i) (JStr t)) issueList = None"
    by (simp add: find_None_iff)
  from hyp obtain issue
    where reuse: "find (\<lambda>i. strictEq (title i) (optionalString reuseTitle)) issueList = Some issue"
    by (cases "find (\<lambda>i. strictEq (title i) (optionalString reuseTitle)) issueList")
       (auto simp: find_None_iff)
  have found: "lookupIssue t reuseTitle issueList = Some issue"
    by (simp add: lookupIssue_def none reuse)
  have other: "\<not> strictEq (title issue) (JStr t)"
    using find_SomeD [OF reuse] hyp by blast
  note shape = ensureIssue_found_shape [OF fetched found run]
  have "case toString (iid issue) of
          Inl e \<Rightarrow> sent w1 w' = []
        | Inr idText \<Rightarrow>
            (\<exists>rest.
                sent w1 w' =
                  (descriptionRequest w idText,
                   http w (network w1) (descriptionRequest w idText)) # rest
              \<and> (rest = [] \<or> (\<exists>rs. rest = [(updateRequest w idText t (sanitize b), rs)]))
              \<and> ((\<exists>resBody d. http w (network w1) (descriptionRequest w idText) = Inr resBody
                      \<and> getProp resBody ''description'' = Inr d) \<longrightarrow> rest \<noteq> []))"
  proof (cases "toString (iid issue)")
    case (Inl e)
    with shape show ?thesis
      by simp
  next
    case (Inr idText)
    with shape obtain rest where rest: "sent w1 w' =
         (descriptionRequest w idText, http w (network w1) (descriptionRequest w idText)) # rest"
      and one: "rest = [] \<or> (\<exists>rs. rest = [(updateRequest w idText t (sanitize b), rs)])"
      by auto
    have "rest \<noteq> []"
      if "\<exists>resBody d. http w (network w1) (descriptionRequest w idText) = Inr resBody
            \<and> getProp resBody ''description'' = Inr d"
      using ensureIssue_found(1) [OF fetched found Inr run] that other rest by auto
    with rest one show ?thesis
      by (auto simp: Inr)
  qed
  with reuse shape
  show "\<exists>issue.
                 find (\<lambda>i. strictEq (title i) (optionalString reuseTitle)) issueList = Some issue
               \<and> requests POST (sent w w') = []
               \<and> (case toString (iid issue) of
                    Inl e \<Rightarrow> sent w1 w' = []
                  | Inr idText \<Rightarrow>
                      (\<exists>rest.
                          sent w1 w' =
                            (descriptionRequest w idText,
                             http w (network w1) (descriptionRequest w idText)) # rest
                        \<and> (rest = [] \<or> (\<exists>rs. rest = [(updateRequest w idText t (sanitize b), rs)]))
                        \<and> ((\<exists>resBody d. http w (network w1) (descriptionRequest w idText) = Inr resBody
                                \<and> getProp resBody ''description'' = Inr d) \<longrightarrow> rest \<noteq> [])))"
    by blast
next
  fix issue
  assume exact: "find (\<lambda>i. strictEq (title i) (JStr t)) issueList = Some issue"
  then have found: "lookupIssue t reuseTitle issueList = Some issue"
    by (simp add: lookupIssue_def)
  note shape = ensureIssue_found_shape [OF fetched found run]
  from shape show "requests POST (sent w w') = []"
    by simp
  from shape show "case toString (iid issue) of
                   Inl e \<Rightarrow> sent w1 w' = []
                 | Inr idText \<Rightarrow>
                     (\<exists>rest.
                         sent w1 w' =
                           (descriptionRequest w idText,
                            http w (network w1) (descriptionRequest w idText)) # rest
                       \<and> (rest = [] \<or> (\<exists>rs. rest = [(updateRequest w idText t (sanitize b), rs)])))"
    by simp
qed

text \<open>
  First run: only the old title is listed, and the issue is updated although its
  description is already the sanitized body. Second run: the old title comes first in
  the list, and still issue 4, with the exact title, is the one read.
\<close>

theorem ensureIssue_reuseTitle_witness:
  "fst (ensureIssue exampleSanitize ''Dashboard'' (Some ''Old board'') ''B!''
         (exampleWorld (scripted [Inr (JArr [issueObject ''3'' ''Old board'']),
            Inr (descriptionObject ''B''), Inr JNull]) []))
     = Inr (Some Updated)
   \<and> requests POST
        (sent (exampleWorld (scripted [Inr (JArr [issueObject ''3'' ''Old board'']),
                 Inr (descriptionObject ''B''), Inr JNull]) [])
           (snd (ensureIssue exampleSanitize ''Dashboard'' (Some ''Old board'') ''B!''
              (exampleWorld (scripted [Inr (JArr [issueObject ''3'' ''Old board'']),
                 Inr (descriptionObject ''B''), Inr JNull]) []))))
     = []
   \<and> requests POST
        (sent (exampleWorld (scripted [Inr (JArr [issueObject ''3'' ''Old board'',
                 issueObject ''4'' ''Dashboard'']), Inr (descriptionObject ''B'')]) [])
           (snd (ensureIssue exampleSanitize ''Dashboard'' (Some ''Old board'') ''B!''
              (exampleWorld (scripted [Inr (JArr [issueObject ''3'' ''Old board'',
                 issueObject ''4'' ''Dashboard'']), Inr (descriptionObject ''B'')]) []))))
     = []
   \<and> map fst
        (sent (exampleWorld (scripted [Inr (JArr [issueObject ''3'' ''Old board'',
                 issueObject ''4'' ''Dashboard'']), Inr (descriptionObject ''B'')]) [])
           (snd (ensureIssue exampleSanitize ''Dashboard'' (Some ''Old board'') ''B!''
              (exampleWorld (scripted [Inr (JArr [issueObject ''3'' ''Old board'',
                 issueObject ''4'' ''Dashboard'']), Inr (descriptionObject ''B'')]) []))))
     = [listRequest (exampleWorld (scripted [Inr (JArr [issueObject ''3'' ''Old board'',
                 issueObject ''4'' ''Dashboard'']), Inr (descriptionObject ''B'')]) []),
        descriptionRequest (exampleWorld (scripted [Inr (JArr [issueObject ''3'' ''Old board'',
                 issueObject ''4'' ''Dashboard'']), Inr (descriptionObject ''B'')]) [])
          ''4'']"
proof -
  let ?W = "exampleWorld (scripted [Inr (JArr [issueObject ''3'' ''Old board'']),
            Inr (descriptionObject ''B''), Inr JNull]) []"
  let ?L = "[SelfHostIssue (JNum ''3'') (JStr ''Old board'')]"
  let ?run = "ensureIssue exampleSanitize ''Dashboard'' (Some ''Old board'') ''B!'' ?W"
  let ?fetch = "getIssueList (logger Debug NoContext ''ensureIssue()'' ?W)"
  let ?V = "exampleWorld (scripted [Inr (JArr [issueObject ''3'' ''Old board'',
                 issueObject ''4'' ''Dashboard'']), Inr (descriptionObject ''B'')]) []"
  let ?M = "[SelfHostIssue (JNum ''3'') (JStr ''Old board''), SelfHostIssue (JNum ''4'') (JStr ''Dashboard'')]"
  let ?runV = "ensureIssue exampleSanitize ''Dashboard'' (Some ''Old board'') ''B!'' ?V"
  let ?fetchV = "getIssueList (logger Debug NoContext ''ensureIssue()'' ?V)"
  have "fst ?fetch = Inr ?L"
    by (simp add: list_eval)
  then have fetched: "?fetch = (Inr ?L, snd ?fetch)"
    by (simp add: prod_eq_iff)
  have run: "?run = (fst ?run, snd ?run)"
    by simp
  have hyp: "(\<forall>i\<in>set ?L. \<not> strictEq (title i) (JStr ''Dashboard''))
      \<and> (\<exists>i\<in>set ?L. strictEq (title i) (optionalString (Some ''Old board'')))"
    by simp
  from ensureIssue_reuseTitle [OF fetched run, THEN conjunct1, THEN mp, OF hyp]
  have no_post: "requests POST (sent ?W (snd ?run)) = []"
    by blast
  have updated: "fst ?run = Inr (Some Updated)"
    by (simp add: eval_defs)
  have "fst ?fetchV = Inr ?M"
    by (simp add: list_eval)
  then have fetchedV: "?fetchV = (Inr ?M, snd ?fetchV)"
    by (simp add: prod_eq_iff)
  have runV: "?runV = (fst ?runV, snd ?runV)"
    by simp
  have exact: "find (\<lambda>i. strictEq (title i) (JStr ''Dashboard'')) ?M
      = Some (SelfHostIssue (JNum ''4'') (JStr ''Dashboard''))"
    by simp
  from ensureIssue_reuseTitle [OF fetchedV runV, THEN conjunct2, rule_format, OF exact]
  have no_postV: "requests POST (sent ?V (snd ?runV)) = []"
    by blast
  have priority: "map fst (sent ?V (snd ?runV))
      = [listRequest ?V, descriptionRequest ?V ''4'']"
    by (simp add: eval_defs sent_def listRequest_def descriptionRequest_def)
  from no_post updated no_postV priority show ?thesis
    by (simp only: simp_thms)
qed

section \<open>ensureIssueClosing: which issues are closed\<close>

text \<open>
  Claim C6, amended. For every title and every fetched list, the requests that
  \<^verbatim>\<open>ensureIssueClosing\<close> sends after the list fetch are close requests (\<open>PUT\<close> with
  \<^verbatim>\<open>state_event: 'close'\<close>, addressed to the issue's \<^verbatim>\<open>iid\<close>), one for each of the
  first \<open>k\<close> issues of the list whose title is the given title, in list order; no other
  issue receives a request, and nothing is created. The loop ends early in two ways
  only. A close request that throws is the last request of the call, and the call throws
  its error: the issues with the title that come after it receive no request. An issue
  with the title whose \<^verbatim>\<open>iid\<close> does not convert to a string receives no request, nor do
  those after it, and the call throws the error of the conversion. The call returns only
  after a returned request to every issue with the title. When every such \<^verbatim>\<open>iid\<close>
  converts and no close request throws, the call returns and every such issue has
  received its one request.
\<close>

theorem ensureIssueClosing_closes:
  assumes fetched: "getIssueList (logger Debug NoContext ''ensureIssueClosing()'' w) = (Inr issueList, w1)"
    and run: "ensureIssueClosing t w = (r, w')"
  shows "(\<exists>k ids.
             k \<le> length (filter (\<lambda>i. strictEq (title i) (JStr t)) issueList)
           \<and> map (\<lambda>i. toString (iid i)) (take k (filter (\<lambda>i. strictEq (title i) (JStr t)) issueList))
               = map Inr ids
           \<and> map fst (sent w1 w') = map (closeRequest w) ids
           \<and> (\<forall>x\<in>set (butlast (sent w1 w')). \<exists>v. snd x = Inr v)
           \<and> (case r of
                Inr u \<Rightarrow>
                  k = length (filter (\<lambda>i. strictEq (title i) (JStr t)) issueList)
                  \<and> (\<forall>x\<in>set (sent w1 w'). \<exists>v. snd x = Inr v)
              | Inl e \<Rightarrow>
                  (sent w1 w' \<noteq> [] \<and> snd (last (sent w1 w')) = Inl e)
                  \<or> (k < length (filter (\<lambda>i. strictEq (title i) (JStr t)) issueList)
                     \<and> toString (iid (filter (\<lambda>i. strictEq (title i) (JStr t)) issueList ! k)) = Inl e
                     \<and> (\<forall>x\<in>set (sent w1 w'). \<exists>v. snd x = Inr v))))
       \<and> (\<forall>j e. j < length (sent w1 w') \<longrightarrow> snd (sent w1 w' ! j) = Inl e \<longrightarrow>
             Suc j = length (sent w1 w') \<and> r = Inl e)
       \<and> (\<forall>ids. map (\<lambda>i. toString (iid i)) (filter (\<lambda>i. strictEq (title i) (JStr t)) issueList)
                  = map Inr ids \<longrightarrow>
                (\<forall>x\<in>set (sent w1 w'). \<exists>v. snd x = Inr v) \<longrightarrow>
                r = Inr () \<and> map fst (sent w1 w') = map (closeRequest w) ids)
       \<and> requests PUT (sent w w') = map fst (sent w1 w')
       \<and> requests POST (sent w w') = []"
proof -
  from ensureIssueClosing_run [OF fetched run]
  have all: "sent w w' = (listRequest w, http w (network w) (listRequest w)) # sent w1 w'"
    and pre: "\<exists>k ids.
             k \<le> length (filter (\<lambda>i. strictEq (title i) (JStr t)) issueList)
           \<and> map (\<lambda>i. toString (iid i)) (take k (filter (\<lambda>i. strictEq (title i) (JStr t)) issueList))
               = map Inr ids
           \<and> map fst (sent w1 w') = map (closeRequest w) ids
           \<and> (\<forall>x\<in>set (butlast (sent w1 w')). \<exists>v. snd x = Inr v)
           \<and> (case r of
                Inr u \<Rightarrow>
                  k = length (filter (\<lambda>i. strictEq (title i) (JStr t)) issueList)
                  \<and> (\<forall>x\<in>set (sent w1 w'). \<exists>v. snd x = Inr v)
              | Inl e \<Rightarrow>
                  (sent w1 w' \<noteq> [] \<and> snd (last (sent w1 w')) = Inl e)
                  \<or> (k < length (filter (\<lambda>i. strictEq (title i) (JStr t)) issueList)
                     \<and> toString (iid (filter (\<lambda>i. strictEq (title i) (JStr t)) issueList ! k)) = Inl e
                     \<and> (\<forall>x\<in>set (sent w1 w'). \<exists>v. snd x = Inr v)))"
    by simp_all
  from pre obtain ids where reqs: "map fst (sent w1 w') = map (closeRequest w) ids"
    by blast
  have puts: "requests PUT (sent w w') = map fst (sent w1 w')"
    and posts: "requests POST (sent w w') = []"
    by (simp_all add: all requests_def reqs listRequest_def)
  have early: "\<forall>j e. j < length (sent w1 w') \<longrightarrow> snd (sent w1 w' ! j) = Inl e \<longrightarrow>
             Suc j = length (sent w1 w') \<and> r = Inl e"
    using ensureIssueClosing_throw_last [OF fetched run] by blast
  have complete: "\<forall>ids. map (\<lambda>i. toString (iid i)) (filter (\<lambda>i. strictEq (title i) (JStr t)) issueList)
                  = map Inr ids \<longrightarrow>
                (\<forall>x\<in>set (sent w1 w'). \<exists>v. snd x = Inr v) \<longrightarrow>
                r = Inr () \<and> map fst (sent w1 w') = map (closeRequest w) ids"
    using ensureIssueClosing_complete [OF fetched run] by blast
  from pre early complete puts posts show ?thesis
    by (intro conjI)
qed

text \<open>
  First run: issues 1 and 3 carry the title, issue 2 does not, and there are two close
  requests, to 1 and to 3. Second run: issues 1 and 2 carry the title and the close
  request for issue 1 throws; it is the only request after the list fetch, and its error
  is the result of the call.
\<close>

theorem ensureIssueClosing_closes_witness:
  "fst (ensureIssueClosing ''X''
         (exampleWorld (scripted [Inr (JArr [issueObject ''1'' ''X'', issueObject ''2'' ''Y'',
            issueObject ''3'' ''X'']), Inr JNull, Inr JNull]) []))
     = Inr ()
   \<and> requests PUT
        (sent (exampleWorld (scripted [Inr (JArr [issueObject ''1'' ''X'', issueObject ''2'' ''Y'',
            issueObject ''3'' ''X'']), Inr JNull, Inr JNull]) [])
           (snd (ensureIssueClosing ''X''
              (exampleWorld (scripted [Inr (JArr [issueObject ''1'' ''X'', issueObject ''2'' ''Y'',
            issueObject ''3'' ''X'']), Inr JNull, Inr JNull]) []))))
     = [closeRequest (exampleWorld (scripted [Inr (JArr [issueObject ''1'' ''X'', issueObject ''2'' ''Y'',
            issueObject ''3'' ''X'']), Inr JNull, Inr JNull]) []) ''1'',
        closeRequest (exampleWorld (scripted [Inr (JArr [issueObject ''1'' ''X'', issueObject ''2'' ''Y'',
            issueObject ''3'' ''X'']), Inr JNull, Inr JNull]) []) ''3'']
   \<and> fst (ensureIssueClosing ''X''
         (exampleWorld (scripted [Inr (JArr [issueObject ''1'' ''X'', issueObject ''2'' ''X'']),
            Inl (Error ''403 Forbidden'')]) []))
     = Inl (Error ''403 Forbidden'')
   \<and> length (sent
         (snd (getIssueList (logger Debug NoContext ''ensureIssueClosing()''
            (exampleWorld (scripted [Inr (JArr [issueObject ''1'' ''X'', issueObject ''2'' ''X'']),
            Inl (Error ''403 Forbidden'')]) []))))
         (snd (ensureIssueClosing ''X''
            (exampleWorld (scripted [Inr (JArr [issueObject ''1'' ''X'', issueObject ''2'' ''X'']),
            Inl (Error ''403 Forbidden'')]) []))))
     = Suc 0"
proof -
  let ?W = "exampleWorld (scripted [Inr (JArr [issueObject ''1'' ''X'', issueObject ''2'' ''Y'',
            issueObject ''3'' ''X'']), Inr JNull, Inr JNull]) []"
  let ?L = "[SelfHostIssue (JNum ''1'') (JStr ''X''), SelfHostIssue (JNum ''2'') (JStr ''Y''),
             SelfHostIssue (JNum ''3'') (JStr ''X'')]"
  let ?run = "ensureIssueClosing ''X'' ?W"
  let ?fetch = "getIssueList (logger Debug NoContext ''ensureIssueClosing()'' ?W)"
  have "fst ?fetch = Inr ?L"
    by (simp add: list_eval)
  then have fetched: "?fetch = (Inr ?L, snd ?fetch)"
    by (simp add: prod_eq_iff)
  have run: "?run = (fst ?run, snd ?run)"
    by simp
  have renders: "map (\<lambda>i. toString (iid i)) (filter (\<lambda>i. strictEq (title i) (JStr ''X'')) ?L)
      = map Inr [''1'', ''3'']"
    by simp
  have ok: "\<forall>x\<in>set (sent (snd ?fetch) (snd ?run)). \<exists>v. snd x = Inr v"
    by (simp add: close_eval sent_def)
  note closes = ensureIssueClosing_closes [OF fetched run]
  from closes have complete: "\<forall>ids. map (\<lambda>i. toString (iid i))
        (filter (\<lambda>i. strictEq (title i) (JStr ''X'')) ?L) = map Inr ids \<longrightarrow>
      (\<forall>x\<in>set (sent (snd ?fetch) (snd ?run)). \<exists>v. snd x = Inr v) \<longrightarrow>
      fst ?run = Inr () \<and> map fst (sent (snd ?fetch) (snd ?run)) = map (closeRequest ?W) ids"
    by (elim conjE)
  from closes have puts: "requests PUT (sent ?W (snd ?run)) = map fst (sent (snd ?fetch) (snd ?run))"
    by (elim conjE)
  from complete [THEN spec, THEN mp, OF renders, THEN mp, OF ok] puts
  have first: "fst ?run = Inr ()
      \<and> requests PUT (sent ?W (snd ?run)) = [closeRequest ?W ''1'', closeRequest ?W ''3'']"
    by simp
  let ?V = "exampleWorld (scripted [Inr (JArr [issueObject ''1'' ''X'', issueObject ''2'' ''X'']),
            Inl (Error ''403 Forbidden'')]) []"
  let ?M = "[SelfHostIssue (JNum ''1'') (JStr ''X''), SelfHostIssue (JNum ''2'') (JStr ''X'')]"
  let ?runV = "ensureIssueClosing ''X'' ?V"
  let ?fetchV = "getIssueList (logger Debug NoContext ''ensureIssueClosing()'' ?V)"
  have "fst ?fetchV = Inr ?M"
    by (simp add: list_eval)
  then have fetchedV: "?fetchV = (Inr ?M, snd ?fetchV)"
    by (simp add: prod_eq_iff)
  have runV: "?runV = (fst ?runV, snd ?runV)"
    by simp
  have sentV: "sent (snd ?fetchV) (snd ?runV) = [(closeRequest ?V ''1'', Inl (Error ''403 Forbidden''))]"
    by (simp add: close_eval sent_def closeRequest_def)
  have j: "0 < length (sent (snd ?fetchV) (snd ?runV))"
    and thrown: "snd (sent (snd ?fetchV) (snd ?runV) ! 0) = Inl (Error ''403 Forbidden'')"
    unfolding sentV by simp_all
  from ensureIssueClosing_closes [OF fetchedV runV]
  have early: "\<forall>j e. j < length (sent (snd ?fetchV) (snd ?runV)) \<longrightarrow>
      snd (sent (snd ?fetchV) (snd ?runV) ! j) = Inl e \<longrightarrow>
      Suc j = length (sent (snd ?fetchV) (snd ?runV)) \<and> fst ?runV = Inl e"
    by (elim conjE)
  from early [THEN spec, THEN spec, THEN mp, OF j, THEN mp, OF thrown]
  have second: "fst ?runV = Inl (Error ''403 Forbidden'')
      \<and> length (sent (snd ?fetchV) (snd ?runV)) = Suc 0"
    by simp
  from first second show ?thesis
    by (simp only: simp_thms)
qed

text \<open>
  Claim C6 as stated says that every issue with the title is closed. In the first run
  both listed issues carry the title, the close request for the first throws, and the
  second receives no request. In the second run the one listed issue carries the title
  and its \<^verbatim>\<open>iid\<close> is an object with a member \<^verbatim>\<open>toString\<close>: building the URL throws, and no
  close request is sent.
\<close>

theorem ensureIssueClosing_closes_counterexample:
  "fst (getIssueList (logger Debug NoContext ''ensureIssueClosing()''
          (exampleWorld (scripted [Inr (JArr [issueObject ''1'' ''X'', issueObject ''2'' ''X'']),
             Inl (Error ''403 Forbidden'')]) [])))
     = Inr [SelfHostIssue (JNum ''1'') (JStr ''X''), SelfHostIssue (JNum ''2'') (JStr ''X'')]
   \<and> strictEq (title (SelfHostIssue (JNum ''1'') (JStr ''X''))) (JStr ''X'')
   \<and> strictEq (title (SelfHostIssue (JNum ''2'') (JStr ''X''))) (JStr ''X'')
   \<and> requests PUT
        (sent (exampleWorld (scripted [Inr (JArr [issueObject ''1'' ''X'', issueObject ''2'' ''X'']),
                 Inl (Error ''403 Forbidden'')]) [])
           (snd (ensureIssueClosing ''X''
              (exampleWorld (scripted [Inr (JArr [issueObject ''1'' ''X'', issueObject ''2'' ''X'']),
                 Inl (Error ''403 Forbidden'')]) []))))
     = [closeRequest (exampleWorld (scripted [Inr (JArr [issueObject ''1'' ''X'', issueObject ''2'' ''X'']),
                 Inl (Error ''403 Forbidden'')]) []) ''1'']
   \<and> fst (getIssueList (logger Debug NoContext ''ensureIssueClosing()''
          (exampleWorld (scripted [Inr (JArr [JObj [(''iid'', JObj [(''toString'', JNum ''1'')]),
             (''title'', JStr ''X'')]])]) [])))
     = Inr [SelfHostIssue (JObj [(''toString'', JNum ''1'')]) (JStr ''X'')]
   \<and> strictEq (title (SelfHostIssue (JObj [(''toString'', JNum ''1'')]) (JStr ''X''))) (JStr ''X'')
   \<and> fst (ensureIssueClosing ''X''
          (exampleWorld (scripted [Inr (JArr [JObj [(''iid'', JObj [(''toString'', JNum ''1'')]),
             (''title'', JStr ''X'')]])]) []))
     = Inl (TypeError ''Cannot convert object to primitive value'')
   \<and> requests PUT
        (sent (exampleWorld (scripted [Inr (JArr [JObj [(''iid'', JObj [(''toString'', JNum ''1'')]),
                 (''title'', JStr ''X'')]])]) [])
           (snd (ensureIssueClosing ''X''
              (exampleWorld (scripted [Inr (JArr [JObj [(''iid'', JObj [(''toString'', JNum ''1'')]),
                 (''title'', JStr ''X'')]])]) []))))
     = []"
  by (simp add: close_eval sent_def requests_def closeRequest_def)

section \<open>The operations that catch\<close>

text \<open>
  Claim C7, amended. Whatever the arguments and whatever the HTTP client does,
  \<^verbatim>\<open>findIssue\<close> and \<^verbatim>\<open>getIssue\<close> return: neither throws. \<^verbatim>\<open>ensureIssue\<close> returns
  whenever every value that the HTTP client throws during the call carries a message
  string, as every error object does: its \<^verbatim>\<open>catch\<close> block evaluates
  \<^verbatim>\<open>err.message.startsWith(...)\<close> (line 90), which itself throws on a value without
  one. When the body of a \<^verbatim>\<open>try\<close> block throws, for whatever reason (in \<^verbatim>\<open>ensureIssue\<close>:
  a value with a message string), the result is \<^verbatim>\<open>null\<close> and the \<^verbatim>\<open>catch\<close> block writes
  one log line. In particular, when the HTTP client throws on any request of the call,
  the result is \<^verbatim>\<open>null\<close> and the log of the call holds a line for that error.
\<close>

theorem read_paths_never_throw:
  assumes ensure: "ensureIssue sanitize t reuseTitle b wE = (rE, wE')"
    and find: "findIssue tF wF = (rF, wF')"
    and get: "getIssue num useCacheArg wG = (rG, wG')"
  shows "(\<exists>x. rF = Inr x) \<and> (\<exists>x. rG = Inr x)
       \<and> ((\<forall>rq e. (rq, Inl e) \<in> set (sent wE wE') \<longrightarrow> (\<exists>m. caughtMessage e = Inr m)) \<longrightarrow>
             (\<exists>x. rE = Inr x))
       \<and> (\<forall>e v m. ensureIssueTry t reuseTitle (sanitize b) (logger Debug NoContext ''ensureIssue()'' wE)
                   = (Inl e, v) \<longrightarrow>
              caughtMessage e = Inr m \<longrightarrow>
              rE = Inr None
            \<and> logged v wE' =
                [if startsWith m ''Issues are disabled for this repo''
                 then LogEntry Debug NoContext (''Could not create issue: '' @ m)
                 else LogEntry Warn (Err e) ''Could not ensure issue''])
       \<and> (\<forall>e v. findIssueTry tF (logger Debug NoContext (''findIssue('' @ tF @ '')'') wF) = (Inl e, v) \<longrightarrow>
              rF = Inr None \<and> logged v wF' = [LogEntry Warn NoContext ''Error finding issue''])
       \<and> (\<forall>e v. getIssueTry num (case useCacheArg of None \<Rightarrow> True | Some f \<Rightarrow> f) wG = (Inl e, v) \<longrightarrow>
              rG = Inr None \<and> logged v wG' = [LogEntry Warn (ErrNumber e num) ''Error getting issue''])
       \<and> (\<forall>rq e m. (rq, Inl e) \<in> set (sent wE wE') \<longrightarrow>
              caughtMessage e = Inr m \<longrightarrow>
              rE = Inr None
            \<and> (if startsWith m ''Issues are disabled for this repo''
                then LogEntry Debug NoContext (''Could not create issue: '' @ m)
                else LogEntry Warn (Err e) ''Could not ensure issue'') \<in> set (logged wE wE'))
       \<and> (\<forall>rq e. (rq, Inl e) \<in> set (sent wF wF') \<longrightarrow>
              rF = Inr None
            \<and> (LogEntry Warn NoContext ''Error finding issue'' \<in> set (logged wF wF')
               \<or> (\<exists>n. LogEntry Warn (ErrNumber e n) ''Error getting issue'' \<in> set (logged wF wF'))))
       \<and> (\<forall>rq e. (rq, Inl e) \<in> set (sent wG wG') \<longrightarrow>
              rG = Inr None
            \<and> LogEntry Warn (ErrNumber e num) ''Error getting issue'' \<in> set (logged wG wG'))"
proof -
  from findIssue_returns [of tF wF] find have 1: "\<exists>x. rF = Inr x"
    by auto
  from getIssue_returns [of num useCacheArg wG] get have 2: "\<exists>x. rG = Inr x"
    by auto
  have 3: "(\<forall>rq e. (rq, Inl e) \<in> set (sent wE wE') \<longrightarrow> (\<exists>m. caughtMessage e = Inr m)) \<longrightarrow>
             (\<exists>x. rE = Inr x)"
    using ensureIssue_returns [OF ensure] by (intro impI)
  have 4: "\<forall>e v m. ensureIssueTry t reuseTitle (sanitize b) (logger Debug NoContext ''ensureIssue()'' wE)
                   = (Inl e, v) \<longrightarrow>
              caughtMessage e = Inr m \<longrightarrow>
              rE = Inr None
            \<and> logged v wE' =
                [if startsWith m ''Issues are disabled for this repo''
                 then LogEntry Debug NoContext (''Could not create issue: '' @ m)
                 else LogEntry Warn (Err e) ''Could not ensure issue'']"
    using ensureIssue_catch [OF _ _ ensure] by (intro allI impI)
  have 5: "\<forall>e v. findIssueTry tF (logger Debug NoContext (''findIssue('' @ tF @ '')'') wF) = (Inl e, v) \<longrightarrow>
              rF = Inr None \<and> logged v wF' = [LogEntry Warn NoContext ''Error finding issue'']"
    using findIssue_catch [OF _ find] by (intro allI impI)
  have 6: "\<forall>e v. getIssueTry num (case useCacheArg of None \<Rightarrow> True | Some f \<Rightarrow> f) wG = (Inl e, v) \<longrightarrow>
              rG = Inr None \<and> logged v wG' = [LogEntry Warn (ErrNumber e num) ''Error getting issue'']"
    using getIssue_catch [OF _ get] by (intro allI impI)
  have 7: "\<forall>rq e m. (rq, Inl e) \<in> set (sent wE wE') \<longrightarrow>
              caughtMessage e = Inr m \<longrightarrow>
              rE = Inr None
            \<and> (if startsWith m ''Issues are disabled for this repo''
                then LogEntry Debug NoContext (''Could not create issue: '' @ m)
                else LogEntry Warn (Err e) ''Could not ensure issue'') \<in> set (logged wE wE')"
    using ensureIssue_transport [OF ensure] by (intro allI impI)
  have 8: "\<forall>rq e. (rq, Inl e) \<in> set (sent wF wF') \<longrightarrow>
              rF = Inr None
            \<and> (LogEntry Warn NoContext ''Error finding issue'' \<in> set (logged wF wF')
               \<or> (\<exists>n. LogEntry Warn (ErrNumber e n) ''Error getting issue'' \<in> set (logged wF wF')))"
    using findIssue_transport [OF find] by (intro allI impI)
  have 9: "\<forall>rq e. (rq, Inl e) \<in> set (sent wG wG') \<longrightarrow>
              rG = Inr None
            \<and> LogEntry Warn (ErrNumber e num) ''Error getting issue'' \<in> set (logged wG wG')"
    using getIssue_transport [OF get] by (intro allI impI)
  from 1 2 3 4 5 6 7 8 9 show ?thesis
    by (intro conjI)
qed

text \<open>
  A create request refused because issues are disabled, a list whose only element is
  \<^verbatim>\<open>null\<close> (the projection of line 41 throws a \<open>TypeError\<close>), and an issue fetch answered
  with an error.
\<close>

theorem read_paths_never_throw_witness:
  "fst (ensureIssue exampleSanitize ''Dashboard'' None ''B!''
         (exampleWorld (scripted [Inr (JArr []),
            Inl (Error ''Issues are disabled for this repo'')]) []))
     = Inr None
   \<and> LogEntry Debug NoContext ''Could not create issue: Issues are disabled for this repo''
       \<in> set (logged
           (exampleWorld (scripted [Inr (JArr []),
              Inl (Error ''Issues are disabled for this repo'')]) [])
           (snd (ensureIssue exampleSanitize ''Dashboard'' None ''B!''
             (exampleWorld (scripted [Inr (JArr []),
                Inl (Error ''Issues are disabled for this repo'')]) []))))
   \<and> fst (findIssue ''Dashboard'' (exampleWorld (scripted [Inr (JArr [JNull])]) [])) = Inr None
   \<and> fst (getIssue (JNum ''5'') (Some False) (exampleWorld (scripted [Inl (Error ''404 Not Found'')]) []))
     = Inr None
   \<and> LogEntry Warn (ErrNumber (Error ''404 Not Found'') (JNum ''5'')) ''Error getting issue''
       \<in> set (logged (exampleWorld (scripted [Inl (Error ''404 Not Found'')]) [])
           (snd (getIssue (JNum ''5'') (Some False)
             (exampleWorld (scripted [Inl (Error ''404 Not Found'')]) []))))"
proof -
  let ?WE = "exampleWorld (scripted [Inr (JArr []),
            Inl (Error ''Issues are disabled for this repo'')]) []"
  let ?WF = "exampleWorld (scripted [Inr (JArr [JNull])]) []"
  let ?WG = "exampleWorld (scripted [Inl (Error ''404 Not Found'')]) []"
  let ?runE = "ensureIssue exampleSanitize ''Dashboard'' None ''B!'' ?WE"
  let ?runF = "findIssue ''Dashboard'' ?WF"
  let ?runG = "getIssue (JNum ''5'') (Some False) ?WG"
  have runE: "?runE = (fst ?runE, snd ?runE)"
    and runF: "?runF = (fst ?runF, snd ?runF)"
    and runG: "?runG = (fst ?runG, snd ?runG)"
    by simp_all
  note all = read_paths_never_throw [OF runE runF runG]
  have sentE: "sent ?WE (snd ?runE)
      = [(listRequest ?WE, Inr (JArr [])),
         (createRequest ?WE ''Dashboard'' ''B'', Inl (Error ''Issues are disabled for this repo''))]"
    by (simp add: eval_defs sent_def createRequest_def listRequest_def)
  have caught: "caughtMessage (Error ''Issues are disabled for this repo'')
      = Inr ''Issues are disabled for this repo''"
    by (simp add: caughtMessage_def)
  have messages: "\<forall>rq e. (rq, Inl e) \<in> set (sent ?WE (snd ?runE)) \<longrightarrow> (\<exists>m. caughtMessage e = Inr m)"
    unfolding sentE using caught by simp
  have thrownE: "(createRequest ?WE ''Dashboard'' ''B'', Inl (Error ''Issues are disabled for this repo''))
      \<in> set (sent ?WE (snd ?runE))"
    unfolding sentE by simp
  have thrownG: "(issueRequest ?WG ''5'' False, Inl (Error ''404 Not Found''))
      \<in> set (sent ?WG (snd ?runG))"
    by (simp add: find_eval sent_def issueRequest_def)
  have "fst (findIssueTry ''Dashboard'' (logger Debug NoContext (''findIssue('' @ ''Dashboard'' @ '')'') ?WF))
      = Inl (TypeError (''Cannot read properties of null (reading '' @ quoted ''iid'' @ '')''))"
    by (simp add: find_eval)
  then have thrownF: "findIssueTry ''Dashboard'' (logger Debug NoContext (''findIssue('' @ ''Dashboard'' @ '')'') ?WF)
      = (Inl (TypeError (''Cannot read properties of null (reading '' @ quoted ''iid'' @ '')'')),
         snd (findIssueTry ''Dashboard'' (logger Debug NoContext (''findIssue('' @ ''Dashboard'' @ '')'') ?WF)))"
    by (simp add: prod_eq_iff)
  have prefix: "startsWith ''Issues are disabled for this repo'' ''Issues are disabled for this repo''"
    by (simp add: startsWith_def)
  from all messages have returns: "\<exists>x. fst ?runE = Inr x"
    by blast
  from all thrownE caught have "fst ?runE = Inr None
      \<and> (if startsWith ''Issues are disabled for this repo'' ''Issues are disabled for this repo''
          then LogEntry Debug NoContext
                 (''Could not create issue: '' @ ''Issues are disabled for this repo'')
          else LogEntry Warn (Err (Error ''Issues are disabled for this repo'')) ''Could not ensure issue'')
         \<in> set (logged ?WE (snd ?runE))"
    by blast
  with prefix have E: "fst ?runE = Inr None
      \<and> LogEntry Debug NoContext ''Could not create issue: Issues are disabled for this repo''
         \<in> set (logged ?WE (snd ?runE))"
    by simp
  from all thrownF have F: "fst ?runF = Inr None"
    by blast
  from all thrownG have G: "fst ?runG = Inr None
      \<and> LogEntry Warn (ErrNumber (Error ''404 Not Found'') (JNum ''5'')) ''Error getting issue''
         \<in> set (logged ?WG (snd ?runG))"
    by blast
  from returns E F G show ?thesis
    by (simp only: simp_thms)
qed

text \<open>
  Claim C7 as stated says that \<^verbatim>\<open>ensureIssue\<close> never throws, whatever the HTTP client
  does. Here the client rejects the list fetch with a plain object that has a status
  code and no message: \<^verbatim>\<open>err.message\<close> is \<^verbatim>\<open>undefined\<close>, the call of \<^verbatim>\<open>startsWith\<close> in
  the \<^verbatim>\<open>catch\<close> block throws a \<open>TypeError\<close>, and \<^verbatim>\<open>ensureIssue\<close> throws it to its caller.
  \<^verbatim>\<open>findIssue\<close> on the same client returns \<^verbatim>\<open>null\<close>.
\<close>

theorem read_paths_never_throw_counterexample:
  "fst (ensureIssue exampleSanitize ''Dashboard'' None ''B!''
         (exampleWorld (scripted [Inl (Thrown (JObj [(''statusCode'', JNum ''500'')]))]) []))
     = Inl (TypeError (''Cannot read properties of undefined (reading '' @ quoted ''startsWith'' @ '')''))
   \<and> sent (exampleWorld (scripted [Inl (Thrown (JObj [(''statusCode'', JNum ''500'')]))]) [])
        (snd (ensureIssue exampleSanitize ''Dashboard'' None ''B!''
           (exampleWorld (scripted [Inl (Thrown (JObj [(''statusCode'', JNum ''500'')]))]) [])))
     = [(listRequest (exampleWorld (scripted [Inl (Thrown (JObj [(''statusCode'', JNum ''500'')]))]) []),
         Inl (Thrown (JObj [(''statusCode'', JNum ''500'')])))]
   \<and> fst (findIssue ''Dashboard''
         (exampleWorld (scripted [Inl (Thrown (JObj [(''statusCode'', JNum ''500'')]))]) []))
     = Inr None"
  by (simp add: eval_defs find_eval sent_def listRequest_def)

section \<open>ensureIssueClosing: failures\<close>

text \<open>
  Claim C8. \<^verbatim>\<open>ensureIssueClosing\<close> has no \<^verbatim>\<open>try\<close>: when the HTTP client throws on the
  list fetch or on a close request, the call throws that same error, and the throwing
  request is the last one it sent. A throw inside \<^verbatim>\<open>getIssueList\<close> of any kind is the
  result of the call, in the world \<^verbatim>\<open>getIssueList\<close> left.
\<close>

theorem ensureIssueClosing_propagates:
  assumes run: "ensureIssueClosing t w = (r, w')"
  shows "(\<forall>rq e. (rq, Inl e) \<in> set (sent w w') \<longrightarrow> r = Inl e \<and> last (sent w w') = (rq, Inl e))
       \<and> (\<forall>e w1. getIssueList (logger Debug NoContext ''ensureIssueClosing()'' w) = (Inl e, w1)
             \<longrightarrow> r = Inl e \<and> w' = w1)"
proof (cases "getIssueList (logger Debug NoContext ''ensureIssueClosing()'' w)")
  case (Pair r1 w1)
  note frame = getIssueList_world [OF Pair]
  show ?thesis
  proof (cases r1)
    case (Inl e1)
    with run Pair have r: "r = Inl e1" and w': "w' = w1"
      by (simp_all add: ensureIssueClosing_def)
    have all: "sent w w1 = [(listRequest w, http w (network w) (listRequest w))]"
      using frame by (simp add: sent_def)
    have "e1 = e" if "http w (network w) (listRequest w) = Inl e" for e
      using getIssueList_throw [OF _ Pair] that Inl by simp
    with r w' Pair Inl show ?thesis
      by (auto simp: all)
  next
    case (Inr issueList)
    with Pair have fetched:
      "getIssueList (logger Debug NoContext ''ensureIssueClosing()'' w) = (Inr issueList, w1)"
      by simp
    from getIssueList_return [OF fetched] obtain resBody
      where ok: "http w (network w) (listRequest w) = Inr resBody"
      by auto
    from ensureIssueClosing_run [OF fetched run]
    have all: "sent w w' = (listRequest w, http w (network w) (listRequest w)) # sent w1 w'"
      by simp
    have "r = Inl e \<and> last (sent w w') = (rq, Inl e)" if "(rq, Inl e) \<in> set (sent w w')" for rq e
    proof -
      from that ok have mem: "(rq, Inl e) \<in> set (sent w1 w')"
        by (auto simp: all)
      then have "sent w1 w' \<noteq> []"
        by auto
      with ensureIssueClosing_throw [OF fetched run mem] show ?thesis
        by (simp add: all)
    qed
    with fetched show ?thesis
      by auto
  qed
qed

text \<open>A close request that is refused, and a list fetch that cannot connect.\<close>

theorem ensureIssueClosing_propagates_witness:
  "fst (ensureIssueClosing ''X''
         (exampleWorld (scripted [Inr (JArr [issueObject ''1'' ''X'', issueObject ''2'' ''X'']),
            Inl (Error ''403 Forbidden'')]) []))
     = Inl (Error ''403 Forbidden'')
   \<and> fst (ensureIssueClosing ''X'' (exampleWorld (scripted [Inl (Error ''connect ECONNREFUSED'')]) []))
     = Inl (Error ''connect ECONNREFUSED'')"
proof -
  let ?W = "exampleWorld (scripted [Inr (JArr [issueObject ''1'' ''X'', issueObject ''2'' ''X'']),
            Inl (Error ''403 Forbidden'')]) []"
  let ?run = "ensureIssueClosing ''X'' ?W"
  let ?V = "exampleWorld (scripted [Inl (Error ''connect ECONNREFUSED'')]) []"
  let ?runV = "ensureIssueClosing ''X'' ?V"
  have run: "?run = (fst ?run, snd ?run)"
    by simp
  have thrown: "(closeRequest ?W ''1'', Inl (Error ''403 Forbidden''))
      \<in> set (sent ?W (snd ?run))"
    by (simp add: close_eval sent_def closeRequest_def)
  from ensureIssueClosing_propagates [OF run, THEN conjunct1, rule_format, OF thrown]
  have first: "fst ?run = Inl (Error ''403 Forbidden'')"
    by simp
  have runV: "?runV = (fst ?runV, snd ?runV)"
    by simp
  have "fst (getIssueList (logger Debug NoContext ''ensureIssueClosing()'' ?V))
      = Inl (Error ''connect ECONNREFUSED'')"
    by (simp add: list_eval)
  then have "getIssueList (logger Debug NoContext ''ensureIssueClosing()'' ?V)
      = (Inl (Error ''connect ECONNREFUSED''),
         snd (getIssueList (logger Debug NoContext ''ensureIssueClosing()'' ?V)))"
    by (simp add: prod_eq_iff)
  from ensureIssueClosing_propagates [OF runV, THEN conjunct2, rule_format, OF this]
  have "fst ?runV = Inl (Error ''connect ECONNREFUSED'')"
    by simp
  with first show ?thesis
    by (simp only: simp_thms)
qed

section \<open>findIssue: the result\<close>

text \<open>
  Claim C9. Given the list fetched by the call: when no issue of the list has the given
  title, \<^verbatim>\<open>findIssue\<close> returns \<^verbatim>\<open>null\<close>; otherwise it returns what \<^verbatim>\<open>getIssue\<close> returns
  for the \<^verbatim>\<open>iid\<close> of the first issue with that title, which is the issue number together
  with the fetched description, or \<^verbatim>\<open>null\<close> when that fetch fails: when the \<^verbatim>\<open>iid\<close> does
  not convert to a string for the URL, when the HTTP client throws, or when the read of
  the description throws.
\<close>

theorem findIssue_result:
  assumes fetched: "getIssueList (logger Debug NoContext (''findIssue('' @ t @ '')'') w) = (Inr issueList, w1)"
  shows "((\<forall>i\<in>set issueList. \<not> strictEq (title i) (JStr t)) \<longrightarrow> fst (findIssue t w) = Inr None)
       \<and> (\<forall>issue. find (\<lambda>i. strictEq (title i) (JStr t)) issueList = Some issue \<longrightarrow>
             findIssue t w = getIssue (iid issue) None w1
           \<and> fst (findIssue t w) =
               (case toString (iid issue) of
                  Inl e \<Rightarrow> Inr None
                | Inr idText \<Rightarrow>
                    (case http w (network w1) (issueRequest w idText True) of
                       Inl e \<Rightarrow> Inr None
                     | Inr resBody \<Rightarrow>
                         (case getProp resBody ''description'' of
                            Inl e \<Rightarrow> Inr None
                          | Inr d \<Rightarrow> Inr (Some (Issue (iid issue) d))))))"
proof (intro conjI impI allI)
  assume "\<forall>i\<in>set issueList. \<not> strictEq (title i) (JStr t)"
  from findIssue_absent [OF fetched this] show "fst (findIssue t w) = Inr None"
    by simp
next
  fix issue
  assume found: "find (\<lambda>i. strictEq (title i) (JStr t)) issueList = Some issue"
  from findIssue_found [OF fetched found]
  show delegate: "findIssue t w = getIssue (iid issue) None w1" .
  note frame = getIssueList_world [OF fetched]
  have same: "issueRequest w1 = issueRequest w"
    using frame by (intro request_frames) simp_all
  have "getIssue (iid issue) None w1 = (fst (findIssue t w), snd (findIssue t w))"
    by (simp add: delegate)
  from getIssue_run(2) [OF this]
  show "fst (findIssue t w) =
               (case toString (iid issue) of
                  Inl e \<Rightarrow> Inr None
                | Inr idText \<Rightarrow>
                    (case http w (network w1) (issueRequest w idText True) of
                       Inl e \<Rightarrow> Inr None
                     | Inr resBody \<Rightarrow>
                         (case getProp resBody ''description'' of
                            Inl e \<Rightarrow> Inr None
                          | Inr d \<Rightarrow> Inr (Some (Issue (iid issue) d)))))"
    using frame by (simp add: same cong: sum.case_cong)
qed

text \<open>
  Issues 2 and 3 both carry the title: the result is issue 2 with its description. No
  issue is titled \<^verbatim>\<open>Missing\<close>: the result is \<^verbatim>\<open>null\<close>.
\<close>

theorem findIssue_result_witness:
  "fst (findIssue ''Dashboard''
         (exampleWorld (scripted [Inr (JArr [issueObject ''1'' ''Other'', issueObject ''2'' ''Dashboard'',
            issueObject ''3'' ''Dashboard'']), Inr (descriptionObject ''text'')]) []))
     = Inr (Some (Issue (JNum ''2'') (JStr ''text'')))
   \<and> fst (findIssue ''Missing''
         (exampleWorld (scripted [Inr (JArr [issueObject ''1'' ''Other'', issueObject ''2'' ''Dashboard'',
            issueObject ''3'' ''Dashboard'']), Inr (descriptionObject ''text'')]) []))
     = Inr None"
proof -
  let ?W = "exampleWorld (scripted [Inr (JArr [issueObject ''1'' ''Other'', issueObject ''2'' ''Dashboard'',
            issueObject ''3'' ''Dashboard'']), Inr (descriptionObject ''text'')]) []"
  let ?L = "[SelfHostIssue (JNum ''1'') (JStr ''Other''), SelfHostIssue (JNum ''2'') (JStr ''Dashboard''),
             SelfHostIssue (JNum ''3'') (JStr ''Dashboard'')]"
  let ?fetch = "getIssueList (logger Debug NoContext (''findIssue('' @ ''Dashboard'' @ '')'') ?W)"
  let ?fetchM = "getIssueList (logger Debug NoContext (''findIssue('' @ ''Missing'' @ '')'') ?W)"
  have "fst ?fetch = Inr ?L"
    by (simp add: list_eval)
  then have fetched: "?fetch = (Inr ?L, snd ?fetch)"
    by (simp add: prod_eq_iff)
  have found: "find (\<lambda>i. strictEq (title i) (JStr ''Dashboard'')) ?L
      = Some (SelfHostIssue (JNum ''2'') (JStr ''Dashboard''))"
    by simp
  have renders: "toString (iid (SelfHostIssue (JNum ''2'') (JStr ''Dashboard''))) = Inr ''2''"
    by simp
  have answer: "http ?W (network (snd ?fetch)) (issueRequest ?W ''2'' True)
      = Inr (descriptionObject ''text'')"
    by (simp add: list_eval)
  have descr: "getProp (descriptionObject ''text'') ''description'' = Inr (JStr ''text'')"
    by (simp add: descriptionObject_def)
  from findIssue_result [OF fetched, THEN conjunct2, rule_format, OF found, THEN conjunct2]
    renders answer descr
  have first: "fst (findIssue ''Dashboard'' ?W) = Inr (Some (Issue (JNum ''2'') (JStr ''text'')))"
    by simp
  have "fst ?fetchM = Inr ?L"
    by (simp add: list_eval)
  then have fetchedM: "?fetchM = (Inr ?L, snd ?fetchM)"
    by (simp add: prod_eq_iff)
  have absent: "\<forall>i\<in>set ?L. \<not> strictEq (title i) (JStr ''Missing'')"
    by simp
  from findIssue_result [OF fetchedM, THEN conjunct1, THEN mp, OF absent]
  have "fst (findIssue ''Missing'' ?W) = Inr None" .
  with first show ?thesis
    by (simp only: simp_thms)
qed

section \<open>findIssue: the cache flag\<close>

text \<open>
  Claim C10. \<^verbatim>\<open>findIssue\<close> calls \<^verbatim>\<open>getIssue\<close> with one argument, so the default \<^verbatim>\<open>true\<close>
  of \<^verbatim>\<open>useCache\<close> applies: the call is the same as one that passes \<^verbatim>\<open>true\<close>, the request
  for the issue (sent unless the \<^verbatim>\<open>iid\<close> does not convert to a string for the URL)
  carries \<^verbatim>\<open>useCache: true\<close>, and no request that \<^verbatim>\<open>findIssue\<close> sends, for any title and
  any state, carries \<^verbatim>\<open>useCache: false\<close>.
\<close>

theorem findIssue_useCache:
  assumes run: "findIssue t w = (r, w')"
  shows "(\<forall>rq\<in>set (map fst (sent w w')). useCache rq \<noteq> Some False)
       \<and> (\<forall>issueList w1 issue.
             getIssueList (logger Debug NoContext (''findIssue('' @ t @ '')'') w) = (Inr issueList, w1)
             \<longrightarrow> find (\<lambda>i. strictEq (title i) (JStr t)) issueList = Some issue
             \<longrightarrow> findIssue t w = getIssue (iid issue) None w1
               \<and> getIssue (iid issue) None w1 = getIssue (iid issue) (Some True) w1
               \<and> map fst (sent w1 w') =
                   (case toString (iid issue) of
                      Inl e \<Rightarrow> []
                    | Inr idText \<Rightarrow> [issueRequest w idText True])
               \<and> (\<forall>idText. useCache (issueRequest w idText True) = Some True))"
proof (intro conjI allI impI)
  from findIssue_sent [OF run] show "\<forall>rq\<in>set (map fst (sent w w')). useCache rq \<noteq> Some False"
    by (auto simp: listRequest_def issueRequest_def)
next
  fix issueList w1 issue
  assume fetched: "getIssueList (logger Debug NoContext (''findIssue('' @ t @ '')'') w) = (Inr issueList, w1)"
    and found: "find (\<lambda>i. strictEq (title i) (JStr t)) issueList = Some issue"
  note frame = getIssueList_world [OF fetched]
  have same: "issueRequest w1 = issueRequest w"
    using frame by (intro request_frames) simp_all
  from findIssue_found [OF fetched found]
  show delegate: "findIssue t w = getIssue (iid issue) None w1" .
  show "getIssue (iid issue) None w1 = getIssue (iid issue) (Some True) w1"
    by (simp add: getIssue_def)
  from delegate run have "getIssue (iid issue) None w1 = (r, w')"
    by simp
  from getIssue_run(1) [OF this]
  show "map fst (sent w1 w') =
      (case toString (iid issue) of Inl e \<Rightarrow> [] | Inr idText \<Rightarrow> [issueRequest w idText True])"
    by (simp add: same split: sum.splits)
next
  fix idText
  show "useCache (issueRequest w idText True) = Some True"
    by (simp add: issueRequest_def)
qed

text \<open>The two requests of a successful search: the list fetch, and the issue fetch with the flag set.\<close>

theorem findIssue_useCache_witness:
  "useCache (issueRequest
       (exampleWorld (scripted [Inr (JArr [issueObject ''2'' ''Dashboard'']),
          Inr (descriptionObject ''text'')]) []) ''2'' True) = Some True
   \<and> requests GET
        (sent (exampleWorld (scripted [Inr (JArr [issueObject ''2'' ''Dashboard'']),
                 Inr (descriptionObject ''text'')]) [])
           (snd (findIssue ''Dashboard''
              (exampleWorld (scripted [Inr (JArr [issueObject ''2'' ''Dashboard'']),
                 Inr (descriptionObject ''text'')]) []))))
     = [listRequest (exampleWorld (scripted [Inr (JArr [issueObject ''2'' ''Dashboard'']),
                 Inr (descriptionObject ''text'')]) []),
        issueRequest (exampleWorld (scripted [Inr (JArr [issueObject ''2'' ''Dashboard'']),
                 Inr (descriptionObject ''text'')]) []) ''2'' True]
   \<and> findIssue ''Dashboard''
        (exampleWorld (scripted [Inr (JArr [issueObject ''2'' ''Dashboard'']),
           Inr (descriptionObject ''text'')]) [])
     = getIssue (JNum ''2'') (Some True)
         (snd (getIssueList (logger Debug NoContext (''findIssue('' @ ''Dashboard'' @ '')'')
            (exampleWorld (scripted [Inr (JArr [issueObject ''2'' ''Dashboard'']),
               Inr (descriptionObject ''text'')]) []))))
   \<and> map fst
        (sent (snd (getIssueList (logger Debug NoContext (''findIssue('' @ ''Dashboard'' @ '')'')
            (exampleWorld (scripted [Inr (JArr [issueObject ''2'' ''Dashboard'']),
               Inr (descriptionObject ''text'')]) []))))
           (snd (findIssue ''Dashboard''
              (exampleWorld (scripted [Inr (JArr [issueObject ''2'' ''Dashboard'']),
                 Inr (descriptionObject ''text'')]) []))))
     = [issueRequest (exampleWorld (scripted [Inr (JArr [issueObject ''2'' ''Dashboard'']),
                 Inr (descriptionObject ''text'')]) []) ''2'' True]"
proof -
  let ?W = "exampleWorld (scripted [Inr (JArr [issueObject ''2'' ''Dashboard'']),
            Inr (descriptionObject ''text'')]) []"
  let ?issue = "SelfHostIssue (JNum ''2'') (JStr ''Dashboard'')"
  let ?run = "findIssue ''Dashboard'' ?W"
  let ?fetch = "getIssueList (logger Debug NoContext (''findIssue('' @ ''Dashboard'' @ '')'') ?W)"
  have run: "?run = (fst ?run, snd ?run)"
    by simp
  have "fst ?fetch = Inr [?issue]"
    by (simp add: list_eval)
  then have fetched: "?fetch = (Inr [?issue], snd ?fetch)"
    by (simp add: prod_eq_iff)
  have found: "find (\<lambda>i. strictEq (title i) (JStr ''Dashboard'')) [?issue] = Some ?issue"
    by simp
  note flags = findIssue_useCache [OF run, THEN conjunct2, THEN spec, THEN spec, THEN spec,
      THEN mp, OF fetched, THEN mp, OF found]
  from trans [OF flags [THEN conjunct1] flags [THEN conjunct2, THEN conjunct1]]
  have delegate: "?run = getIssue (JNum ''2'') (Some True) (snd ?fetch)"
    by simp
  from flags [THEN conjunct2, THEN conjunct2, THEN conjunct2, THEN spec, of "''2''"]
  have flag: "useCache (issueRequest ?W ''2'' True) = Some True" .
  from flags [THEN conjunct2, THEN conjunct2, THEN conjunct1]
  have fetch: "map fst (sent (snd ?fetch) (snd ?run)) = [issueRequest ?W ''2'' True]"
    by simp
  have gets: "requests GET (sent ?W (snd ?run)) = [listRequest ?W, issueRequest ?W ''2'' True]"
    by (simp add: find_eval sent_def requests_def listRequest_def issueRequest_def)
  from flag gets delegate fetch show ?thesis
    by (simp only: simp_thms)
qed

end
